theory Spec2Isabelle
  imports Main "HOL-Library.Monad_Syntax" "HOL-Library.Sublist"
begin

section \<open>C primitives used by the beacon\<close>

text \<open>
  The beacon is C code (\<^verbatim>\<open>beacon.c\<close>, \<^verbatim>\<open>communication.c\<close>, \<^verbatim>\<open>beacon.h\<close>), modelled for
  the non-Windows branch of every \<^verbatim>\<open>#ifdef _WIN32\<close>.  A C \<^verbatim>\<open>int\<close> is a HOL \<open>int\<close>
  together with an explicit range check; a computation whose behaviour C leaves undefined
  (signed overflow, a write or read outside an array) has the value \<open>None\<close>.  The content
  of a \<^verbatim>\<open>char\<close> array up to its terminating NUL is a \<open>string\<close>.
\<close>

definition INT_MAX :: int where
  "INT_MAX = 2147483647"

definition INT_MIN :: int where
  "INT_MIN = - 2147483648"

definition c_int :: "int \<Rightarrow> int option" where
  "c_int x = (if INT_MIN \<le> x \<and> x \<le> INT_MAX then Some x else None)"

text \<open>C's \<^verbatim>\<open>/\<close> and \<^verbatim>\<open>%\<close> on \<^verbatim>\<open>int\<close> truncate towards zero (HOL's round down).\<close>

definition c_div :: "int \<Rightarrow> int \<Rightarrow> int" where
  "c_div a b = sgn a * sgn b * (\<bar>a\<bar> div \<bar>b\<bar>)"

definition c_mod :: "int \<Rightarrow> int \<Rightarrow> int" where
  "c_mod a b = a - b * c_div a b"

text \<open>
  \<^verbatim>\<open>size_t\<close> subtraction wraps around (64-bit \<^verbatim>\<open>size_t\<close>).
\<close>

definition size_sub :: "nat \<Rightarrow> nat \<Rightarrow> nat" where
  "size_sub a b = (if b \<le> a then a - b else a + 2 ^ 64 - b)"

subsection \<open>Strings\<close>

definition NUL :: char where
  "NUL = CHR 0x00"

definition LF :: char where
  "LF = CHR 0x0A"

definition CRLF :: string where
  "CRLF = [CHR 0x0D, CHR 0x0A]"

text \<open>Raw bytes read as a C string end at the first NUL.\<close>

definition c_str :: "string \<Rightarrow> string" where
  "c_str bytes = takeWhile (\<lambda>c. c \<noteq> NUL) bytes"

definition strlen :: "string \<Rightarrow> nat" where
  "strlen bytes = length (c_str bytes)"

text \<open>
  \<^verbatim>\<open>snprintf(buf, n, ...)\<close> with the formatted text \<open>text\<close>: at most \<open>n - 1\<close>
  characters are stored (nothing when \<open>n = 0\<close>), and the length of the whole text
  is returned.
\<close>

definition snprintf :: "nat \<Rightarrow> string \<Rightarrow> string \<times> nat" where
  "snprintf n text = (take (n - 1) text, length text)"

text \<open>
  \<^verbatim>\<open>snprintf(buf + offset, sizeof(buf) - offset, ...)\<close> on a buffer of \<open>cap\<close> bytes
  that holds the string \<open>buf\<close>.  The size is computed in \<^verbatim>\<open>size_t\<close>: once
  \<open>offset\<close> has passed \<open>cap\<close> the pointer lies outside the array and the size wraps
  around to a huge value, so the call writes outside the array.
\<close>

definition snprintf_at :: "nat \<Rightarrow> string \<Rightarrow> nat \<Rightarrow> string \<Rightarrow> (string \<times> nat) option" where
  "snprintf_at cap buf offset text =
     (if cap < offset then None
      else if cap = offset then Some (buf, length text)
      else Some (take offset buf @ take (cap - offset - 1) text, length text))"

text \<open>\<^verbatim>\<open>strncpy(dst, src, n)\<close> into a zeroed array: the string left in \<open>dst\<close>.\<close>

definition strncpy :: "string \<Rightarrow> nat \<Rightarrow> string" where
  "strncpy src n = take n src"

text \<open>\<^verbatim>\<open>strstr\<close>: the rest of the string from the first occurrence on, or NULL.\<close>

fun strstr :: "string \<Rightarrow> string \<Rightarrow> string option" where
  "strstr [] needle = (if needle = [] then Some [] else None)"
| "strstr (c # cs) needle =
     (if prefix needle (c # cs) then Some (c # cs) else strstr cs needle)"

text \<open>\<^verbatim>\<open>strchr\<close>: the index of the first occurrence of a character, or NULL.\<close>

definition strchr :: "string \<Rightarrow> char \<Rightarrow> nat option" where
  "strchr s c = (if c \<in> set s then Some (length (takeWhile (\<lambda>x. x \<noteq> c) s)) else None)"

definition isspace :: "char \<Rightarrow> bool" where
  "isspace c = (c \<in> set [CHR 0x20, CHR 0x09, CHR 0x0A, CHR 0x0B, CHR 0x0C, CHR 0x0D])"

definition isdigit :: "char \<Rightarrow> bool" where
  "isdigit c = (48 \<le> (of_char c :: nat) \<and> (of_char c :: nat) \<le> 57)"

fun digits_value :: "int \<Rightarrow> string \<Rightarrow> int" where
  "digits_value acc [] = acc"
| "digits_value acc (c # cs) =
     (if isdigit c then digits_value (acc * 10 + (int (of_char c) - 48)) cs else acc)"

text \<open>
  \<^verbatim>\<open>atoi\<close>: white space, an optional sign, decimal digits.  A value that does not fit
  an \<^verbatim>\<open>int\<close> is undefined behaviour.
\<close>

definition atoi :: "string \<Rightarrow> int option" where
  "atoi s =
     (let t = dropWhile isspace s in
      if t \<noteq> [] \<and> hd t = CHR ''-'' then c_int (- digits_value 0 (tl t))
      else if t \<noteq> [] \<and> hd t = CHR ''+'' then c_int (digits_value 0 (tl t))
      else c_int (digits_value 0 t))"

text \<open>The text \<^verbatim>\<open>%d\<close> prints.\<close>

fun decimal :: "nat \<Rightarrow> string" where
  "decimal n =
     (if n < 10 then [char_of (48 + n)]
      else decimal (n div 10) @ [char_of (48 + n mod 10)])"

definition printf_d :: "int \<Rightarrow> string" where
  "printf_d i = (if i < 0 then CHR ''-'' # decimal (nat (- i)) else decimal (nat i))"

section \<open>Sleeping with jitter\<close>

text \<open>
  \<^verbatim>\<open>sleep\<close> of \<^verbatim>\<open>unistd.h\<close>, which the build without \<^verbatim>\<open>_WIN32\<close> calls, takes an
  \<^verbatim>\<open>unsigned int\<close>: an \<^verbatim>\<open>int\<close> argument is converted modulo \<open>UINT_MAX + 1\<close>, so a
  negative one becomes a large positive one.
\<close>

definition UINT_MAX :: int where
  "UINT_MAX = 4294967295"

definition to_unsigned :: "int \<Rightarrow> int" where
  "to_unsigned x = x mod (UINT_MAX + 1)"

text \<open>
  \<^verbatim>\<open>sleep_with_jitter\<close> (\<^verbatim>\<open>beacon.c\<close>, lines 271-281).  The argument \<open>r\<close> is the value
  \<^verbatim>\<open>rand()\<close> returns; the result is the number of seconds \<^verbatim>\<open>sleep\<close> receives.
  \<^verbatim>\<open>2 * jitter_range + 1\<close> is odd, so the \<^verbatim>\<open>%\<close> never divides by zero.
\<close>

definition sleep_with_jitter :: "int \<Rightarrow> int \<Rightarrow> int \<Rightarrow> int option" where
  "sleep_with_jitter base_seconds jitter_percent r =
     (if jitter_percent > 0 then do {
        p \<leftarrow> c_int (base_seconds * jitter_percent);
        let jitter_range = c_div p 100;
        m \<leftarrow> c_int (2 * jitter_range + 1);
        jitter \<leftarrow> c_int (c_mod r m - jitter_range);
        sleep_time \<leftarrow> c_int (base_seconds + jitter);
        Some (to_unsigned (if sleep_time < 1 then 1 else sleep_time))
      } else Some (to_unsigned base_seconds))"

section \<open>Data (\<^verbatim>\<open>beacon.h\<close>)\<close>

definition MAX_BUFFER_SIZE :: nat where
  "MAX_BUFFER_SIZE = 8192"

definition MAX_OUTPUT_SIZE :: nat where
  "MAX_OUTPUT_SIZE = 16384"

definition BEACON_ID_LEN :: nat where
  "BEACON_ID_LEN = 37"

definition USER_AGENT :: string where
  "USER_AGENT = ''Mozilla/5.0 (Windows NT 10.0; Win64; x64) AppleWebKit/537.36''"

record beacon_config_t =
  server_url :: string
  beacon_id :: string
  user_agent :: string
  sleep_interval :: int
  jitter_percent :: int
  verify_ssl :: int
  proxy_url :: string

record system_info_t =
  hostname :: string
  username :: string
  os_name :: string
  os_version :: string
  architecture :: string
  pid :: int
  cwd :: string
  ip_addresses :: string

record command_t =
  id_c :: string
  command :: string
  args :: string

record command_result_t =
  command_id :: string
  success :: int
  "output" :: string
  timestamp :: string

text \<open>
  \<^verbatim>\<open>http_response_t\<close> is declared in \<^verbatim>\<open>communication.h\<close>; these are the fields
  \<^verbatim>\<open>communication.c\<close> uses.  \<open>data = None\<close> is the NULL pointer; \<open>Some bytes\<close> holds
  every byte received.
\<close>

record http_response_t =
  status_code :: int
  data :: "string option"

section \<open>Transport (\<^verbatim>\<open>communication.c\<close>)\<close>

text \<open>
  \<^verbatim>\<open>parse_url\<close> (lines 358-400): host name, port, path and the TLS flag.  The caller's
  arrays are \<^verbatim>\<open>hostname[256]\<close> and \<^verbatim>\<open>path[512]\<close>; a longer component is written past
  the array.
\<close>

definition parse_url :: "string \<Rightarrow> (string \<times> int \<times> string \<times> int) option" where
  "parse_url url =
     (let (start, port0, use_ssl) =
            (if take 7 url = ''http://'' then (drop 7 url, 80, 0)
             else if take 8 url = ''https://'' then (drop 8 url, 443, 1)
             else (url, 80, 0));
          path_start = strchr start (CHR ''/'');
          port_start = strchr start (CHR '':'')
      in do {
        (hostname_len, port) \<leftarrow>
          (case (port_start, path_start) of
             (Some i, None) \<Rightarrow> do { p \<leftarrow> atoi (drop (i + 1) start); Some (i, p) }
           | (Some i, Some j) \<Rightarrow>
               if i < j then do { p \<leftarrow> atoi (drop (i + 1) start); Some (i, p) }
               else Some (j, port0)
           | (None, Some j) \<Rightarrow> Some (j, port0)
           | (None, None) \<Rightarrow> Some (length start, port0));
        let path = (case path_start of Some j \<Rightarrow> drop j start | None \<Rightarrow> ''/'');
        if 256 \<le> hostname_len \<or> 512 \<le> length path then None
        else Some (take hostname_len start, port, path, use_ssl)
      })"

text \<open>
  What the network answers during one \<^verbatim>\<open>http_request\<close>: the results of \<^verbatim>\<open>socket\<close>,
  \<^verbatim>\<open>gethostbyname\<close> (found or not), \<^verbatim>\<open>connect\<close> and \<^verbatim>\<open>send\<close>, and the bytes the
  \<^verbatim>\<open>recv\<close> loop collects until the peer closes.
\<close>

record net_env =
  socket_fd :: int
  host_found :: bool
  connect_rc :: int
  send_rc :: int
  inbound :: string

text \<open>
  What one request puts on the wire: the host and port of the TCP connection and the
  bytes handed to \<^verbatim>\<open>send\<close> on the bare socket.
\<close>

type_synonym wire = "(string \<times> int \<times> string) option"

definition no_response :: http_response_t where
  "no_response = \<lparr>status_code = 0, data = None\<rparr>"

text \<open>
  \<^verbatim>\<open>http_request\<close>, the raw-socket implementation (lines 264-345).  The request is
  built in \<^verbatim>\<open>char request[MAX_BUFFER_SIZE]\<close>, \<open>request_head\<close> being the text of the
  first format; \<^verbatim>\<open>send\<close> reads \<^verbatim>\<open>request_len\<close> bytes of the array.  Allocation is
  taken to succeed.
\<close>

definition request_head :: "string \<Rightarrow> string \<Rightarrow> string \<Rightarrow> string \<Rightarrow> string" where
  "request_head method path host_name headers =
     method @ '' '' @ path @ '' HTTP/1.1'' @ CRLF @
     ''Host: '' @ host_name @ CRLF @
     headers @
     ''Connection: close'' @ CRLF @
     CRLF"

definition http_request ::
  "net_env \<Rightarrow> string \<Rightarrow> string \<Rightarrow> string \<Rightarrow> string option
     \<Rightarrow> (int \<times> http_response_t \<times> wire) option" where
  "http_request net method url headers body = do {
     (hostname, port, path, use_ssl) \<leftarrow> parse_url url;
     if socket_fd net < 0 then Some (- 1, no_response, None)
     else if \<not> host_found net then Some (- 1, no_response, None)
     else if connect_rc net < 0 then Some (- 1, no_response, None)
     else do {
       let (request, request_len) =
             snprintf MAX_BUFFER_SIZE (request_head method path hostname headers);
       (request, request_len) \<leftarrow>
         (case body of
            None \<Rightarrow> Some (request, request_len)
          | Some d \<Rightarrow> do {
              (request', n) \<leftarrow> snprintf_at MAX_BUFFER_SIZE request request_len d;
              Some (request', request_len + n)
            });
       if MAX_BUFFER_SIZE < request_len then None
       else if send_rc net < 0 then Some (- 1, no_response, None)
       else do {
         let sent = request @ replicate (request_len - length request) NUL;
         code \<leftarrow>
           (case strstr (c_str (inbound net)) ''HTTP/1.1 '' of
              None \<Rightarrow> Some 0
            | Some status_line \<Rightarrow> atoi (drop 9 status_line));
         Some (0, \<lparr>status_code = code, data = Some (inbound net)\<rparr>,
               Some (hostname, port, sent))
       }
     }
   }"

text \<open>
  \<^verbatim>\<open>https_request\<close> (lines 347-354) prints a warning and calls \<^verbatim>\<open>http_request\<close>;
  \<^verbatim>\<open>verify_ssl\<close> is not used.
\<close>

definition https_request ::
  "net_env \<Rightarrow> string \<Rightarrow> string \<Rightarrow> string \<Rightarrow> string option \<Rightarrow> int
     \<Rightarrow> (int \<times> http_response_t \<times> wire) option" where
  "https_request net method url headers body verify = http_request net method url headers body"

section \<open>Codec (\<^verbatim>\<open>communication.c\<close>)\<close>

text \<open>The literal both check-in functions pass for the top-level \<^verbatim>\<open>%s\<close> of "timestamp".\<close>

definition placeholder_timestamp :: string where
  "placeholder_timestamp = ''2024-01-01T00:00:00Z''"

text \<open>The header block (lines 22-26 and 122-126), built in \<^verbatim>\<open>char headers[1024]\<close>.\<close>

definition checkin_headers :: "beacon_config_t \<Rightarrow> string" where
  "checkin_headers config =
     fst (snprintf 1024
       (''User-Agent: '' @ user_agent config @ CRLF @
        ''Content-Type: application/json'' @ CRLF @
        ''X-Beacon-ID: '' @ beacon_id config @ CRLF))"

text \<open>The text of the three \<^verbatim>\<open>snprintf\<close> formats and of one element of the results array.\<close>

definition first_checkin_text :: "beacon_config_t \<Rightarrow> system_info_t \<Rightarrow> string" where
  \<open>first_checkin_text config sysinfo =
     ''{'' @
     ''"beacon_id":"'' @ beacon_id config @ ''",'' @
     ''"timestamp":"'' @ placeholder_timestamp @ ''",'' @
     ''"system_info":{'' @
       ''"hostname":"'' @ hostname sysinfo @ ''",'' @
       ''"username":"'' @ username sysinfo @ ''",'' @
       ''"os_name":"'' @ os_name sysinfo @ ''",'' @
       ''"os_version":"'' @ os_version sysinfo @ ''",'' @
       ''"architecture":"'' @ architecture sysinfo @ ''",'' @
       ''"pid":'' @ printf_d (pid sysinfo) @ '','' @
       ''"cwd":"'' @ cwd sysinfo @ ''"'' @
     ''}'' @
     ''}''\<close>

definition regular_checkin_text :: "beacon_config_t \<Rightarrow> string" where
  \<open>regular_checkin_text config =
     ''{'' @
     ''"beacon_id":"'' @ beacon_id config @ ''",'' @
     ''"timestamp":"'' @ placeholder_timestamp @ ''"'' @
     ''}''\<close>

definition results_open_text :: "beacon_config_t \<Rightarrow> string" where
  \<open>results_open_text config =
     ''{'' @
     ''"beacon_id":"'' @ beacon_id config @ ''",'' @
     ''"timestamp":"'' @ placeholder_timestamp @ ''",'' @
     ''"command_results":[''\<close>

definition result_text :: "nat \<Rightarrow> command_result_t \<Rightarrow> string" where
  \<open>result_text i r =
     (if i > 0 then '','' else []) @ ''{'' @
     ''"command_id":"'' @ command_id r @ ''",'' @
     ''"success":'' @ (if success r \<noteq> 0 then ''true'' else ''false'') @ '','' @
     ''"output":"'' @ output r @ ''",'' @
     ''"timestamp":"'' @ timestamp r @ ''"'' @
     ''}''\<close>

text \<open>
  The loop of lines 64-77 over \<^verbatim>\<open>results[i]\<close>, \<open>i < result_count\<close>, writing into
  \<^verbatim>\<open>char json_data[MAX_BUFFER_SIZE]\<close> at \<open>offset\<close>.  \<open>offset\<close> grows by the length
  \<^verbatim>\<open>snprintf\<close> returns, which is the length of the whole element even when it was cut.
\<close>

fun results_loop ::
  "command_result_t list \<Rightarrow> nat \<Rightarrow> string \<Rightarrow> nat \<Rightarrow> (string \<times> nat) option" where
  "results_loop [] i json_data offset = Some (json_data, offset)"
| "results_loop (r # rs) i json_data offset =
     (if offset < MAX_BUFFER_SIZE - 256 then do {
        (json_data', n) \<leftarrow> snprintf_at MAX_BUFFER_SIZE json_data offset (result_text i r);
        results_loop rs (Suc i) json_data' (offset + n)
      } else Some (json_data, offset))"

text \<open>
  \<^verbatim>\<open>results && result_count > 0\<close>; \<open>results = None\<close> is the NULL pointer that
  \<^verbatim>\<open>beacon_start\<close> passes.
\<close>

definition has_results :: "command_result_t list option \<Rightarrow> nat \<Rightarrow> bool" where
  "has_results results result_count = (results \<noteq> None \<and> 0 < result_count)"

text \<open>
  The JSON payload \<^verbatim>\<open>http_checkin\<close> builds (lines 29-89).  Reading \<^verbatim>\<open>results[i]\<close>
  beyond the array the caller passed is outside the array.
\<close>

definition http_checkin_json ::
  "beacon_config_t \<Rightarrow> system_info_t option \<Rightarrow> command_result_t list option \<Rightarrow> nat
     \<Rightarrow> string option" where
  "http_checkin_json config sysinfo results result_count =
     (case sysinfo of
        Some si \<Rightarrow> Some (fst (snprintf MAX_BUFFER_SIZE (first_checkin_text config si)))
      | None \<Rightarrow>
          if has_results results result_count then
            (case results of
               None \<Rightarrow> None
             | Some rs \<Rightarrow>
                 if length rs < result_count then None
                 else do {
                   let (json_data, offset) =
                         snprintf MAX_BUFFER_SIZE (results_open_text config);
                   (json_data, offset) \<leftarrow>
                     results_loop (take result_count rs) 0 json_data offset;
                   (json_data, n) \<leftarrow> snprintf_at MAX_BUFFER_SIZE json_data offset '']}'';
                   Some json_data
                 })
          else Some (fst (snprintf MAX_BUFFER_SIZE (regular_checkin_text config))))"

text \<open>The JSON payload \<^verbatim>\<open>https_checkin\<close> builds (lines 129-161): it has two shapes only.\<close>

definition https_checkin_json :: "beacon_config_t \<Rightarrow> system_info_t option \<Rightarrow> string" where
  "https_checkin_json config sysinfo =
     (case sysinfo of
        Some si \<Rightarrow> fst (snprintf MAX_BUFFER_SIZE (first_checkin_text config si))
      | None \<Rightarrow> fst (snprintf MAX_BUFFER_SIZE (regular_checkin_text config)))"

text \<open>
  \<^verbatim>\<open>parse_commands_json\<close> (lines 402-416): the returned count and the array stored in
  \<^verbatim>\<open>*commands\<close> (\<open>None\<close> is NULL).
\<close>

definition parse_commands_json :: "string \<Rightarrow> int \<times> command_t list option" where
  \<open>parse_commands_json json =
     (case strstr json ''"commands":['' of
        None \<Rightarrow> (0, None)
      | Some commands_start \<Rightarrow> (0, None))\<close>

text \<open>
  One check-in as seen by the caller: the return value, \<^verbatim>\<open>*commands\<close>,
  \<^verbatim>\<open>*command_count\<close> (both as the callers initialise them when the call fails), and
  what was handed to the transport: method, body, and the bytes on the wire.
\<close>

record exchange =
  req_method :: string
  req_body :: "string option"
  on_wire :: wire

type_synonym checkin_result = "int \<times> command_t list option \<times> int \<times> exchange"

text \<open>
  The end of both check-in functions (lines 97-110 and 169-179), from the transport's
  return value and the response it filled in.
\<close>

definition finish_checkin ::
  "string \<Rightarrow> string option \<Rightarrow> int \<times> http_response_t \<times> wire \<Rightarrow> checkin_result" where
  "finish_checkin method body r =
     (case r of (result, response, w) \<Rightarrow>
        (case (if result = 0 \<and> status_code response = 200 then data response else None) of
           Some d \<Rightarrow>
             (case parse_commands_json (c_str d) of (command_count, commands) \<Rightarrow>
                (0, commands, command_count,
                 \<lparr>req_method = method, req_body = body, on_wire = w\<rparr>))
         | None \<Rightarrow>
             (- 1, None, 0, \<lparr>req_method = method, req_body = body, on_wire = w\<rparr>)))"

text \<open>\<^verbatim>\<open>http_checkin\<close> (lines 13-111).\<close>

definition http_checkin ::
  "net_env \<Rightarrow> beacon_config_t \<Rightarrow> system_info_t option \<Rightarrow> command_result_t list option \<Rightarrow> nat
     \<Rightarrow> checkin_result option" where
  "http_checkin net config sysinfo results result_count = do {
     let headers = checkin_headers config;
     json_data \<leftarrow> http_checkin_json config sysinfo results result_count;
     let method = (if sysinfo \<noteq> None \<or> has_results results result_count then ''POST'' else ''GET'');
     let body = (if sysinfo \<noteq> None \<or> has_results results result_count then Some json_data else None);
     r \<leftarrow> http_request net method (server_url config) headers body;
     Some (finish_checkin method body r)
   }"

text \<open>\<^verbatim>\<open>https_checkin\<close> (lines 113-180).\<close>

definition https_checkin ::
  "net_env \<Rightarrow> beacon_config_t \<Rightarrow> system_info_t option \<Rightarrow> command_result_t list option \<Rightarrow> nat
     \<Rightarrow> checkin_result option" where
  "https_checkin net config sysinfo results result_count = do {
     let headers = checkin_headers config;
     let json_data = https_checkin_json config sysinfo;
     let method = (if sysinfo \<noteq> None then ''POST'' else ''GET'');
     let body = (if sysinfo \<noteq> None then Some json_data else None);
     r \<leftarrow> https_request net method (server_url config) headers body (verify_ssl config);
     Some (finish_checkin method body r)
   }"

section \<open>Dispatcher (\<^verbatim>\<open>beacon.c\<close>)\<close>

text \<open>
  What the host answers while one command runs: the text \<^verbatim>\<open>strftime\<close> formats for the
  UTC time at which \<^verbatim>\<open>get_current_timestamp\<close> is called, what \<^verbatim>\<open>popen\<close> gives for a
  command line (\<open>None\<close> when it fails, else every byte the subprocess writes and the
  status \<^verbatim>\<open>pclose\<close> returns), and the working directory (\<open>None\<close> when it cannot be
  read).
\<close>

record exec_env =
  now :: string
  popen :: "string \<Rightarrow> (string \<times> int) option"
  working_directory :: "string option"

text \<open>
  \<^verbatim>\<open>fgets(buffer, n, pipe)\<close>: NULL at end of file, else the next chunk (up to and with
  the next newline, at most \<open>n - 1\<close> bytes) and the rest of the stream.
\<close>

definition fgets_chunk :: "nat \<Rightarrow> string \<Rightarrow> string" where
  "fgets_chunk n stream =
     (let line = takeWhile (\<lambda>c. c \<noteq> LF) stream
      in take (n - 1) (if length line < length stream then line @ [LF] else line))"

definition fgets :: "nat \<Rightarrow> string \<Rightarrow> (string \<times> string) option" where
  "fgets n stream =
     (if stream = [] then None
      else Some (fgets_chunk n stream, drop (length (fgets_chunk n stream)) stream))"

text \<open>
  The \<^verbatim>\<open>while\<close> loop of \<^verbatim>\<open>execute_shell_command\<close> (lines 324-332).
  \<^verbatim>\<open>strcpy(output + total_read, buffer)\<close> writes \<open>strlen buffer + 1\<close> bytes from index
  \<open>total_read\<close> on; it is a fault when they do not fit \<open>output_size\<close> bytes.
\<close>

function read_pipe :: "nat \<Rightarrow> string \<Rightarrow> string \<Rightarrow> nat \<Rightarrow> string option" where
  "read_pipe output_size stream out total_read =
     (case fgets 1024 stream of
        None \<Rightarrow> Some out
      | Some (buffer, rest) \<Rightarrow>
          if total_read < size_sub output_size 1 then
            (let len = strlen buffer in
             if total_read + len < size_sub output_size 1 then
               (if output_size < total_read + len + 1 then None
                else read_pipe output_size rest (take total_read out @ c_str buffer)
                       (total_read + len))
             else Some out)
          else Some out)"
  by pat_completeness auto
termination
proof (relation "measure (\<lambda>(output_size, stream, out, total_read). length stream)", goal_cases)
  case 1
  show ?case by simp
next
  case prems: (2 output_size stream out total_read x2 buffer rest)
  from prems(1,2) have ne: "stream \<noteq> []" and
    b: "buffer = fgets_chunk 1024 stream" and r: "rest = drop (length buffer) stream"
    by (auto simp: fgets_def split: if_splits)
  have "0 < length (fgets_chunk 1024 stream)"
  proof (cases "length (takeWhile (\<lambda>c. c \<noteq> LF) stream) < length stream")
    case True
    then show ?thesis by (simp add: fgets_chunk_def Let_def)
  next
    case False
    then have "length (takeWhile (\<lambda>c. c \<noteq> LF) stream) = length stream"
      using length_takeWhile_le[of "\<lambda>c. c \<noteq> LF" stream] by simp
    with ne show ?thesis by (simp add: fgets_chunk_def Let_def)
  qed
  with b r ne show ?case by simp
qed

text \<open>
  \<^verbatim>\<open>execute_shell_command\<close> (lines 314-336): the return value and the string left in
  \<^verbatim>\<open>output\<close>, which holds \<open>out\<close> on entry.
\<close>

definition execute_shell_command ::
  "exec_env \<Rightarrow> string \<Rightarrow> string \<Rightarrow> nat \<Rightarrow> (int \<times> string) option" where
  "execute_shell_command env cmdline out output_size =
     (case popen env cmdline of
        None \<Rightarrow>
          if output_size = 0 then None
          else Some (0, strncpy ''Error: Failed to execute command'' (output_size - 1))
      | Some (stream, exit_status) \<Rightarrow> do {
          out' \<leftarrow> read_pipe output_size stream out 0;
          Some (if exit_status = 0 then 1 else 0, out')
        })"

text \<open>
  \<^verbatim>\<open>get_current_timestamp\<close> (lines 265-269): \<^verbatim>\<open>strftime\<close> leaves the array
  indeterminate when the text and its NUL do not fit.
\<close>

definition get_current_timestamp :: "exec_env \<Rightarrow> nat \<Rightarrow> string option" where
  "get_current_timestamp env buffer_size =
     (if length (now env) < buffer_size then Some (now env) else None)"

text \<open>\<^verbatim>\<open>getcwd(buf, n)\<close>: NULL when the directory cannot be read or does not fit.\<close>

definition getcwd :: "exec_env \<Rightarrow> nat \<Rightarrow> string option" where
  "getcwd env n =
     (case working_directory env of
        None \<Rightarrow> None
      | Some d \<Rightarrow> if length d < n then Some d else None)"

text \<open>
  \<^verbatim>\<open>execute_command\<close> (lines 283-312): the result written to \<^verbatim>\<open>*result\<close> and the new
  value of the global \<^verbatim>\<open>g_running\<close>.
\<close>

definition execute_command ::
  "exec_env \<Rightarrow> command_t \<Rightarrow> bool \<Rightarrow> (command_result_t \<times> bool) option" where
  "execute_command env cmd running = do {
     ts \<leftarrow> get_current_timestamp env 32;
     let result = \<lparr>command_id = strncpy (id_c cmd) 63, success = 0, output = [],
                   timestamp = ts\<rparr>;
     if command cmd = ''shell'' then do {
       (rc, out) \<leftarrow> execute_shell_command env (args cmd) (output result) MAX_OUTPUT_SIZE;
       Some (result\<lparr>success := rc, output := out\<rparr>, running)
     }
     else if command cmd = ''pwd'' then
       (case getcwd env MAX_OUTPUT_SIZE of
          None \<Rightarrow>
            Some (result\<lparr>output := ''Error getting current directory'', success := 0\<rparr>, running)
        | Some d \<Rightarrow> Some (result\<lparr>output := d, success := 1\<rparr>, running))
     else if command cmd = ''exit'' then
       Some (result\<lparr>output := ''Beacon shutting down'', success := 1\<rparr>, False)
     else
       Some (result\<lparr>output := fst (snprintf MAX_OUTPUT_SIZE
                                       (''Unknown command: '' @ command cmd)),
                      success := 0\<rparr>, running)
   }"

section \<open>Engine (\<^verbatim>\<open>beacon.c\<close>)\<close>

text \<open>
  The file-scope state: \<^verbatim>\<open>g_running\<close>, \<^verbatim>\<open>g_results[64]\<close> and \<^verbatim>\<open>g_result_count\<close>.
  The queued results are the first \<open>g_result_count\<close> elements of \<open>g_results\<close>.
\<close>

record beacon_state =
  g_running :: bool
  g_results :: "command_result_t list"
  g_result_count :: nat

definition zero_result :: command_result_t where
  "zero_result = \<lparr>command_id = [], success = 0, output = [], timestamp = []\<rparr>"

definition initial_state :: beacon_state where
  "initial_state = \<lparr>g_running = False, g_results = replicate 64 zero_result, g_result_count = 0\<rparr>"

definition queued :: "beacon_state \<Rightarrow> command_result_t list" where
  "queued st = take (g_result_count st) (g_results st)"

text \<open>
  The \<^verbatim>\<open>for\<close> loop of lines 163-168; each command comes with what the host answers
  if it runs.
\<close>

fun process_commands ::
  "(command_t \<times> exec_env) list \<Rightarrow> beacon_state \<Rightarrow> beacon_state option" where
  "process_commands [] st = Some st"
| "process_commands ((cmd, env) # rest) st =
     (if g_result_count st < 64 then do {
        (result, running) \<leftarrow> execute_command env cmd (g_running st);
        process_commands rest
          (st\<lparr>g_running := running,
              g_results := (g_results st)[g_result_count st := result],
              g_result_count := g_result_count st + 1\<rparr>)
      }
      else process_commands rest st)"

text \<open>
  The elements \<^verbatim>\<open>commands[i]\<close>, \<open>i < command_count\<close>, that the loop visits; reading
  them through NULL or beyond the array is a fault.
\<close>

definition commands_array :: "command_t list option \<Rightarrow> int \<Rightarrow> command_t list option" where
  "commands_array commands command_count =
     (if command_count \<le> 0 then Some []
      else
        (case commands of
           None \<Rightarrow> None
         | Some cs \<Rightarrow>
             if nat command_count \<le> length cs then Some (take (nat command_count) cs)
             else None))"

text \<open>The choice between the two check-in functions (lines 118-122 and 152-156).\<close>

definition checkin ::
  "net_env \<Rightarrow> beacon_config_t \<Rightarrow> system_info_t option \<Rightarrow> command_result_t list option \<Rightarrow> nat
     \<Rightarrow> checkin_result option" where
  "checkin net_answers config sysinfo results result_count =
     (if take 8 (server_url config) = ''https://''
      then https_checkin net_answers config sysinfo results result_count
      else http_checkin net_answers config sysinfo results result_count)"

text \<open>
  What the world supplies to one iteration of the main loop: the value of \<^verbatim>\<open>rand()\<close>,
  the network's answers, and the host's answers to the \<open>i\<close>-th command.
\<close>

record cycle_env =
  rand_value :: int
  net :: net_env
  host :: "nat \<Rightarrow> exec_env"

datatype effect = Sleep int | Checkin exchange

text \<open>The part of the loop body after the check-in (lines 158-176).\<close>

definition after_checkin ::
  "int \<Rightarrow> (command_t \<times> exec_env) list \<Rightarrow> beacon_state \<Rightarrow> beacon_state option" where
  "after_checkin checkin_result received st =
     (if checkin_result = 0 then process_commands received (st\<lparr>g_result_count := 0\<rparr>)
      else Some st)"

text \<open>One iteration of the \<^verbatim>\<open>while\<close> loop of \<^verbatim>\<open>beacon_main_loop\<close> (lines 144-176).\<close>

definition cycle ::
  "beacon_config_t \<Rightarrow> cycle_env \<Rightarrow> beacon_state \<Rightarrow> (beacon_state \<times> effect list) option" where
  "cycle config e st = do {
     t \<leftarrow> sleep_with_jitter (sleep_interval config) (jitter_percent config) (rand_value e);
     (checkin_result, commands, command_count, x) \<leftarrow>
       checkin (net e) config None (Some (g_results st)) (g_result_count st);
     cs \<leftarrow> (if checkin_result = 0 then commands_array commands command_count else Some []);
     st' \<leftarrow> after_checkin checkin_result (zip cs (map (host e) [0..<length cs])) st;
     Some (st', [Sleep t, Checkin x])
   }"

text \<open>
  \<^verbatim>\<open>beacon_main_loop\<close> (lines 140-181) over the iterations the world supplies.  The
  first component is the return value once the loop has ended, \<open>None\<close> while
  \<^verbatim>\<open>g_running\<close> is still set after the last supplied iteration.
\<close>

fun beacon_main_loop ::
  "beacon_config_t \<Rightarrow> cycle_env list \<Rightarrow> beacon_state
     \<Rightarrow> (int option \<times> beacon_state \<times> effect list) option" where
  "beacon_main_loop config [] st = Some (if g_running st then None else Some 0, st, [])"
| "beacon_main_loop config (e # es) st =
     (if g_running st then do {
        (st', fx) \<leftarrow> cycle config e st;
        (rc, st'', fx') \<leftarrow> beacon_main_loop config es st';
        Some (rc, st'', fx @ fx')
      }
      else Some (Some 0, st, []))"







definition default_config :: beacon_config_t where
  "default_config =
     \<lparr>server_url = [], beacon_id = [], user_agent = USER_AGENT, sleep_interval = 60,
      jitter_percent = 10, verify_ssl = 0, proxy_url = []\<rparr>"









section \<open>Vocabulary of the statements\<close>

text \<open>The elements of the results array, joined as the loop of \<^verbatim>\<open>http_checkin\<close> writes them.\<close>

fun results_texts :: "nat \<Rightarrow> command_result_t list \<Rightarrow> string" where
  "results_texts i [] = []"
| "results_texts i (r # rs) = result_text i r @ results_texts (Suc i) rs"

text \<open>The start of a payload whose top-level timestamp is the placeholder.\<close>

definition payload_head :: "beacon_config_t \<Rightarrow> string" where
  \<open>payload_head config =
     ''{"beacon_id":"'' @ beacon_id config @ ''","timestamp":"2024-01-01T00:00:00Z"''\<close>

text \<open>
  One run of a command as the world sees it: what the host answers to the code, and
  the UTC time at which the command has finished, which the code never reads.
\<close>

record timed_run =
  answers :: exec_env
  completed_at :: string

section \<open>Concrete inputs\<close>

text \<open>A host on which every command line prints 20000 letters and exits with status 0.\<close>

definition long_output_env :: exec_env where
  "long_output_env =
     \<lparr>now = ''2026-01-01T00:00:00Z'',
      popen = (\<lambda>cmdline. Some (replicate 20000 (CHR ''a''), 0)),
      working_directory = Some ''/''\<rparr>"

text \<open>A configuration for a plain-HTTP controller and one for an HTTPS controller.\<close>

definition example_config :: beacon_config_t where
  "example_config =
     default_config\<lparr>server_url := ''http://c2.example/api'', beacon_id := ''b1''\<rparr>"

definition https_config :: beacon_config_t where
  "https_config =
     default_config\<lparr>server_url := ''https://c2.example/api'', beacon_id := ''b1'',
                     verify_ssl := 1\<rparr>"

text \<open>
  Three answers of the network: status 200 with a body that is no document of the wire
  format, status 500, and a refused connection.
\<close>

definition answers_200_html :: net_env where
  "answers_200_html =
     \<lparr>socket_fd = 3, host_found = True, connect_rc = 0, send_rc = 0,
      inbound = ''HTTP/1.1 200 OK'' @ CRLF @ CRLF @ ''<html>''\<rparr>"

definition answers_500 :: net_env where
  "answers_500 =
     \<lparr>socket_fd = 3, host_found = True, connect_rc = 0, send_rc = 0,
      inbound = ''HTTP/1.1 500 Internal Server Error'' @ CRLF @ CRLF\<rparr>"

definition refuses :: net_env where
  "refuses =
     \<lparr>socket_fd = 3, host_found = True, connect_rc = - 1, send_rc = 0, inbound = []\<rparr>"

text \<open>A state with one queued result, and a state in which the loop has started.\<close>

definition one_result :: command_result_t where
  "one_result =
     \<lparr>command_id = ''c1'', success = 1, output = ''hello'',
      timestamp = ''2026-01-01T00:00:00Z''\<rparr>"

definition one_queued :: beacon_state where
  "one_queued =
     \<lparr>g_running = True, g_results = one_result # replicate 63 zero_result,
      g_result_count = 1\<rparr>"

definition started :: beacon_state where
  "started = initial_state\<lparr>g_running := True\<rparr>"

text \<open>A host with nothing to report, and two commands.\<close>

definition quiet_env :: exec_env where
  "quiet_env =
     \<lparr>now = ''2026-01-01T00:00:00Z'', popen = (\<lambda>cmdline. None),
      working_directory = Some ''/''\<rparr>"

definition pwd_command :: command_t where
  "pwd_command = \<lparr>id_c = ''p'', command = ''pwd'', args = []\<rparr>"

definition exit_command :: command_t where
  "exit_command = \<lparr>id_c = ''x'', command = ''exit'', args = []\<rparr>"

text \<open>Sixty-five commands received in one cycle, the last one the termination verb.\<close>

definition sixty_five :: "(command_t \<times> exec_env) list" where
  "sixty_five = replicate 64 (pwd_command, quiet_env) @ [(exit_command, quiet_env)]"

text \<open>One iteration of the loop under each of the three answers.\<close>

definition cycle_200_html :: cycle_env where
  "cycle_200_html = \<lparr>rand_value = 7, net = answers_200_html, host = (\<lambda>i. quiet_env)\<rparr>"

definition cycle_500 :: cycle_env where
  "cycle_500 = \<lparr>rand_value = 7, net = answers_500, host = (\<lambda>i. quiet_env)\<rparr>"

definition cycle_refused :: cycle_env where
  "cycle_refused = \<lparr>rand_value = 7, net = refuses, host = (\<lambda>i. quiet_env)\<rparr>"

text \<open>The host snapshot and three runs of the process.\<close>

definition example_host :: system_info_t where
  "example_host =
     \<lparr>hostname = ''h'', username = ''u'', os_name = ''Linux'', os_version = ''6'',
      architecture = ''x86_64'', pid = 42, cwd = ''/'', ip_addresses = ''127.0.0.1''\<rparr>"





text \<open>
  A result whose output closes its own string and opens a second element, and the two
  results it reads as.
\<close>

definition forged_result :: command_result_t where
  \<open>forged_result =
     \<lparr>command_id = ''c1'', success = 0,
      output = ''x","timestamp":"t"},{"command_id":"c2","success":true,"output":"y'',
      timestamp = ''t''\<rparr>\<close>

definition plain_result_1 :: command_result_t where
  "plain_result_1 = \<lparr>command_id = ''c1'', success = 0, output = ''x'', timestamp = ''t''\<rparr>"

definition plain_result_2 :: command_result_t where
  "plain_result_2 = \<lparr>command_id = ''c2'', success = 1, output = ''y'', timestamp = ''t''\<rparr>"

text \<open>
  A shell command that starts at \<open>00:00:00\<close>, when \<^verbatim>\<open>execute_command\<close> reads the
  clock, prints nothing and has finished five seconds later.
\<close>

definition shell_command :: command_t where
  "shell_command = \<lparr>id_c = ''s'', command = ''shell'', args = ''sleep 5''\<rparr>"

definition slow_run :: timed_run where
  "slow_run =
     \<lparr>answers =
        \<lparr>now = ''2026-01-01T00:00:00Z'', popen = (\<lambda>cmdline. Some ([], 0)),
         working_directory = Some ''/''\<rparr>,
      completed_at = ''2026-01-01T00:00:05Z''\<rparr>"


section \<open>Properties of the sleep interval\<close>

lemma c_div_nonneg: "0 \<le> a \<Longrightarrow> 0 < b \<Longrightarrow> c_div a b = a div b"
  by (cases "a = 0") (simp_all add: c_div_def)

lemma c_mod_nonneg: "0 \<le> a \<Longrightarrow> 0 < b \<Longrightarrow> c_mod a b = a mod b"
  by (simp add: c_mod_def c_div_nonneg minus_mult_div_eq_mod)

lemma to_unsigned_id: "0 \<le> x \<Longrightarrow> x \<le> UINT_MAX \<Longrightarrow> to_unsigned x = x"
  by (simp add: to_unsigned_def UINT_MAX_def)

lemma to_unsigned_negative: "INT_MIN \<le> x \<Longrightarrow> x < 0 \<Longrightarrow> to_unsigned x = x + 4294967296"
proof -
  assume a: "INT_MIN \<le> x" "x < 0"
  have "(x + 4294967296) mod 4294967296 = x + 4294967296"
    using a by (intro mod_pos_pos_trivial) (simp_all add: INT_MIN_def)
  then show ?thesis by (simp add: to_unsigned_def UINT_MAX_def)
qed

lemma to_unsigned_c_int: "c_int x = Some y \<Longrightarrow> 0 \<le> y \<Longrightarrow> to_unsigned y = y"
  by (auto simp: c_int_def INT_MAX_def to_unsigned_def UINT_MAX_def split: if_splits)

lemma sleep_with_jitter_eval:
  assumes jp: "0 < jp" and base: "0 \<le> base" and r: "0 \<le> r"
    and prod: "base * jp \<le> INT_MAX"
    and sum: "base + base * jp div 100 \<le> INT_MAX"
  shows "sleep_with_jitter base jp r =
           Some (max 1 (base + (r mod (2 * (base * jp div 100) + 1) - base * jp div 100)))"
proof -
  define jr where "jr = base * jp div 100"
  define k where "k = r mod (2 * jr + 1)"
  have p0: "0 \<le> base * jp" using jp base by simp
  have jr0: "0 \<le> jr" unfolding jr_def using p0 by simp
  have m_pos: "0 < 2 * jr + 1" using jr0 by simp
  have k0: "0 \<le> k" unfolding k_def using m_pos by (rule pos_mod_sign)
  have "k < 2 * jr + 1" unfolding k_def using m_pos by (rule pos_mod_bound)
  then have k1: "k \<le> 2 * jr" by simp
  have jr_100: "jr * 100 \<le> base * jp"
    unfolding jr_def by presburger
  have jr_max: "jr * 100 \<le> 2147483647"
    using jr_100 prod by (simp add: INT_MAX_def)
  have sum': "base + jr \<le> 2147483647"
    using sum by (simp add: INT_MAX_def jr_def)
  have c1: "c_int (base * jp) = Some (base * jp)"
    using p0 prod by (simp add: c_int_def INT_MIN_def)
  have c2: "c_int (2 * jr + 1) = Some (2 * jr + 1)"
    using jr0 jr_max by (simp add: c_int_def INT_MIN_def INT_MAX_def)
  have c3: "c_int (k - jr) = Some (k - jr)"
    using k0 k1 jr0 jr_max by (simp add: c_int_def INT_MIN_def INT_MAX_def)
  have c4: "c_int (base + (k - jr)) = Some (base + (k - jr))"
    using k0 k1 jr0 jr_max sum' base by (simp add: c_int_def INT_MIN_def INT_MAX_def)
  have dv: "c_div (base * jp) 100 = jr"
    unfolding jr_def using p0 by (simp add: c_div_nonneg)
  have mm: "c_mod r (2 * jr + 1) = k"
    unfolding k_def using r m_pos by (rule c_mod_nonneg)
  have u: "to_unsigned (max 1 (base + (k - jr))) = max 1 (base + (k - jr))"
    using k1 sum' by (intro to_unsigned_id) (simp_all add: UINT_MAX_def)
  have "sleep_with_jitter base jp r = Some (to_unsigned (max 1 (base + (k - jr))))"
    using jp by (simp add: sleep_with_jitter_def c1 dv c2 mm c3 c4 max_def)
  then show ?thesis
    by (simp add: u) (simp add: k_def jr_def)
qed

lemma jitter_offset_range:
  fixes jr r :: int
  assumes "0 \<le> jr"
  shows "- jr \<le> r mod (2 * jr + 1) - jr \<and> r mod (2 * jr + 1) - jr \<le> jr"
proof -
  have m_pos: "0 < 2 * jr + 1" using assms by simp
  have "0 \<le> r mod (2 * jr + 1)" using m_pos by (rule pos_mod_sign)
  moreover have "r mod (2 * jr + 1) < 2 * jr + 1" using m_pos by (rule pos_mod_bound)
  ultimately show ?thesis by simp
qed

lemma residue_count:
  fixes n k m :: int
  assumes n: "0 < n" and k: "0 \<le> k" "k < n" and m: "0 \<le> m"
  shows "card {r. 0 \<le> r \<and> r < m * n \<and> r mod n = k} = nat m"
proof -
  have eq: "{r. 0 \<le> r \<and> r < m * n \<and> r mod n = k} = (\<lambda>q. k + n * q) ` {0..<m}"
  proof (intro set_eqI iffI)
    fix r assume "r \<in> {r. 0 \<le> r \<and> r < m * n \<and> r mod n = k}"
    then have r: "0 \<le> r" "r < m * n" "r mod n = k" by simp_all
    have d: "r = k + n * (r div n)" using r(3) by (metis mult_div_mod_eq add.commute)
    have "0 \<le> r div n" using r(1) n by (simp add: pos_imp_zdiv_nonneg_iff)
    moreover have "r div n < m"
    proof (rule ccontr)
      assume "\<not> r div n < m"
      then have "m \<le> r div n" by simp
      then have "n * m \<le> n * (r div n)" using n by (simp add: mult_left_mono)
      moreover have "n * (r div n) \<le> r" using d k(1) r(3) by linarith
      ultimately show False using r(2) by (simp add: mult.commute)
    qed
    ultimately have "r div n \<in> {0..<m}" by simp
    with d show "r \<in> (\<lambda>q. k + n * q) ` {0..<m}" by blast
  next
    fix r assume "r \<in> (\<lambda>q. k + n * q) ` {0..<m}"
    then obtain q where q: "0 \<le> q" "q < m" and r: "r = k + n * q" by auto
    have "0 \<le> n * q" using n q(1) by simp
    then have r0: "0 \<le> r" using k(1) r by simp
    have "q + 1 \<le> m" using q(2) by simp
    then have "n * (q + 1) \<le> n * m" using n by (simp add: mult_left_mono)
    then have r1: "r < m * n" using k(2) r by (simp add: algebra_simps)
    have "r mod n = k" using r k n by simp
    with r0 r1 show "r \<in> {r. 0 \<le> r \<and> r < m * n \<and> r mod n = k}" by simp
  qed
  have "inj_on (\<lambda>q. k + n * q) {0..<m}" using n by (auto simp: inj_on_def)
  then have "card ((\<lambda>q. k + n * q) ` {0..<m}) = card {0..<m}" by (rule card_image)
  then show ?thesis by (simp add: eq)
qed

lemma jitter_offset_count:
  assumes jr: "0 \<le> jr" and off: "- jr \<le> off" "off \<le> jr" and m: "0 \<le> m"
  shows "card {r. 0 \<le> r \<and> r < m * (2 * jr + 1) \<and> r mod (2 * jr + 1) - jr = off} = nat m"
proof -
  have "{r. 0 \<le> r \<and> r < m * (2 * jr + 1) \<and> r mod (2 * jr + 1) - jr = off} =
        {r. 0 \<le> r \<and> r < m * (2 * jr + 1) \<and> r mod (2 * jr + 1) = off + jr}"
    by auto
  moreover have "card {r. 0 \<le> r \<and> r < m * (2 * jr + 1) \<and> r mod (2 * jr + 1) = off + jr} = nat m"
    using jr off m by (intro residue_count) simp_all
  ultimately show ?thesis by simp
qed

lemma sleep_with_jitter_count:
  assumes jp: "0 < jp" and base: "0 \<le> base"
    and prod: "base * jp \<le> INT_MAX"
    and sum: "base + base * jp div 100 \<le> INT_MAX"
    and lo: "- (base * jp div 100) \<le> off" and hi: "off \<le> base * jp div 100"
    and m: "0 \<le> m" and big: "1 < base + off"
  shows "card {v. 0 \<le> v \<and> v < m * (2 * (base * jp div 100) + 1) \<and>
                 sleep_with_jitter base jp v = Some (base + off)} = nat m"
proof -
  define jr where "jr = base * jp div 100"
  have jr0: "0 \<le> jr" using jp base by (simp add: jr_def pos_imp_zdiv_nonneg_iff)
  have e: "sleep_with_jitter base jp v = Some (max 1 (base + (v mod (2 * jr + 1) - jr)))"
    if "0 \<le> v" for v
    unfolding jr_def using that by (intro sleep_with_jitter_eval jp base prod sum)
  have "(sleep_with_jitter base jp v = Some (base + off)) = (v mod (2 * jr + 1) - jr = off)"
    if "0 \<le> v" for v
    using e[OF that] big by (auto simp: max_def)
  then have "{v. 0 \<le> v \<and> v < m * (2 * jr + 1) \<and>
                sleep_with_jitter base jp v = Some (base + off)} =
             {v. 0 \<le> v \<and> v < m * (2 * jr + 1) \<and> v mod (2 * jr + 1) - jr = off}"
    by auto
  moreover have "card {v. 0 \<le> v \<and> v < m * (2 * jr + 1) \<and> v mod (2 * jr + 1) - jr = off} =
                 nat m"
    using jr0 lo hi m unfolding jr_def[symmetric] by (intro jitter_offset_count) simp_all
  ultimately show ?thesis unfolding jr_def by simp
qed

lemma sleep_with_jitter_attained:
  assumes jp: "0 < jp" and base: "0 \<le> base"
    and prod: "base * jp \<le> INT_MAX"
    and sum: "base + base * jp div 100 \<le> INT_MAX"
    and lo: "- (base * jp div 100) \<le> off" and hi: "off \<le> base * jp div 100"
  shows "sleep_with_jitter base jp (off + base * jp div 100) = Some (max 1 (base + off))"
proof -
  define jr where "jr = base * jp div 100"
  have r0: "0 \<le> off + jr" using lo by (simp add: jr_def)
  have "off + jr < 2 * jr + 1" using hi by (simp add: jr_def)
  with r0 have "(off + jr) mod (2 * jr + 1) = off + jr"
    by (simp add: mod_pos_pos_trivial)
  moreover have "sleep_with_jitter base jp (off + jr) =
      Some (max 1 (base + ((off + jr) mod (2 * jr + 1) - jr)))"
    unfolding jr_def using r0[unfolded jr_def]
    by (intro sleep_with_jitter_eval jp base prod sum)
  ultimately show ?thesis by (simp add: jr_def)
qed

lemma sleep_with_jitter_floor:
  assumes "0 < jp" and "sleep_with_jitter base jp r = Some t"
  shows "1 \<le> t"
proof -
  from assms obtain sleep_time where
    c: "c_int sleep_time = Some sleep_time" and
    t: "t = to_unsigned (if sleep_time < 1 then 1 else sleep_time)"
    by (auto simp: sleep_with_jitter_def Let_def c_int_def split: bind_splits if_splits)
  from c have "(if sleep_time < 1 then 1 else sleep_time) \<le> UINT_MAX"
    by (auto simp: c_int_def INT_MAX_def UINT_MAX_def split: if_splits)
  then have "to_unsigned (if sleep_time < 1 then 1 else sleep_time) =
             (if sleep_time < 1 then 1 else sleep_time)"
    by (intro to_unsigned_id) auto
  with t show ?thesis by auto
qed

lemma sleep_with_jitter_no_jitter:
  "jp \<le> 0 \<Longrightarrow> sleep_with_jitter base jp r = Some (to_unsigned base)"
  by (simp add: sleep_with_jitter_def)

lemma sleep_with_jitter_60_10:
  assumes "0 \<le> r"
  shows "\<exists>t. sleep_with_jitter 60 10 r = Some t \<and> 54 \<le> t \<and> t \<le> 66"
proof -
  have e: "sleep_with_jitter 60 10 r =
          Some (max 1 (60 + (r mod (2 * (60 * 10 div 100) + 1) - 60 * 10 div 100)))"
    using assms by (intro sleep_with_jitter_eval) (simp_all add: INT_MAX_def)
  have "- 6 \<le> r mod (2 * 6 + 1) - 6 \<and> r mod (2 * 6 + 1) - 6 \<le> (6::int)"
    by (rule jitter_offset_range) simp
  with e show ?thesis by auto
qed

text \<open>
  C3, as the code has it.  On the jitter branch (\<open>jitter_percent > 0\<close>), for a base
  that is not negative and as long as no \<^verbatim>\<open>int\<close> overflows, the duration is the base
  plus the offset \<open>rand() mod (2 * jitter_range + 1) - jitter_range\<close>,
  \<open>jitter_range = base * percent div 100\<close>, raised to 1 when it would be less.  The
  offset lies in \<open>[-jitter_range, +jitter_range]\<close>; the draw is uniform over these
  \<open>2 * jitter_range + 1\<close> offsets in that each is produced by exactly \<open>m\<close> of the
  first \<open>m * (2 * jitter_range + 1)\<close> values of \<^verbatim>\<open>rand()\<close>, and by the value
  \<open>offset + jitter_range\<close> in particular.  Whatever the base, a duration computed on
  this branch is at least 1.  Without jitter (\<open>jitter_percent \<le> 0\<close>) the base goes to
  \<^verbatim>\<open>sleep\<close> as it is and no floor of 1 is applied: a base from 0 on sleeps exactly that
  many seconds, a negative base is converted to \<^verbatim>\<open>unsigned int\<close> and sleeps
  \<open>base + 4294967296\<close> seconds.  For base 60 and 10 percent every duration lies in
  \<open>[54, 66]\<close>.  Where the floor does not interfere (a duration \<open>base + offset\<close> above
  1), exactly \<open>m\<close> of the first \<open>m * (2 * jitter_range + 1)\<close> values of \<^verbatim>\<open>rand()\<close> make
  the code sleep \<open>base + offset\<close> seconds.
\<close>

theorem sleep_with_jitter_duration:
  "(0 < jp \<and> 0 \<le> base \<and> 0 \<le> r \<and> base * jp \<le> INT_MAX \<and>
      base + base * jp div 100 \<le> INT_MAX \<longrightarrow>
      sleep_with_jitter base jp r =
        Some (max 1 (base + (r mod (2 * (base * jp div 100) + 1) - base * jp div 100))) \<and>
      - (base * jp div 100) \<le> r mod (2 * (base * jp div 100) + 1) - base * jp div 100 \<and>
      r mod (2 * (base * jp div 100) + 1) - base * jp div 100 \<le> base * jp div 100)
   \<and> (0 \<le> jr \<and> - jr \<le> off \<and> off \<le> jr \<and> 0 \<le> m \<longrightarrow>
      card {v. 0 \<le> v \<and> v < m * (2 * jr + 1) \<and> v mod (2 * jr + 1) - jr = off} = nat m)
   \<and> (0 < jp \<and> 0 \<le> base \<and> base * jp \<le> INT_MAX \<and> base + base * jp div 100 \<le> INT_MAX \<and>
      - (base * jp div 100) \<le> off \<and> off \<le> base * jp div 100 \<longrightarrow>
        sleep_with_jitter base jp (off + base * jp div 100) = Some (max 1 (base + off)))
   \<and> (0 < jp \<and> sleep_with_jitter base jp r = Some t \<longrightarrow> 1 \<le> t)
   \<and> (jp \<le> 0 \<and> 0 \<le> base \<and> base \<le> INT_MAX \<longrightarrow> sleep_with_jitter base jp r = Some base)
   \<and> (jp \<le> 0 \<and> INT_MIN \<le> base \<and> base < 0 \<longrightarrow>
        sleep_with_jitter base jp r = Some (base + 4294967296))
   \<and> (0 \<le> r \<longrightarrow> (\<exists>t. sleep_with_jitter 60 10 r = Some t \<and> 54 \<le> t \<and> t \<le> 66))
   \<and> (0 < jp \<and> 0 \<le> base \<and> base * jp \<le> INT_MAX \<and> base + base * jp div 100 \<le> INT_MAX \<and>
      - (base * jp div 100) \<le> off \<and> off \<le> base * jp div 100 \<and> 0 \<le> m \<and> 1 < base + off \<longrightarrow>
        card {v. 0 \<le> v \<and> v < m * (2 * (base * jp div 100) + 1) \<and>
                sleep_with_jitter base jp v = Some (base + off)} = nat m)"
proof -
  have a: "0 \<le> base * jp div 100" if "0 < jp" "0 \<le> base"
    using that by (simp add: pos_imp_zdiv_nonneg_iff)
  have b: "to_unsigned base = base" if "0 \<le> base" "base \<le> INT_MAX"
    using that by (intro to_unsigned_id) (simp_all add: INT_MAX_def UINT_MAX_def)
  show ?thesis
    using sleep_with_jitter_eval[of jp base r] jitter_offset_range[of "base * jp div 100" r] a
      jitter_offset_count[of jr off m]
      sleep_with_jitter_attained[of jp base off]
      sleep_with_jitter_floor[of jp base r t] sleep_with_jitter_no_jitter[of jp base r] b
      to_unsigned_negative[of base]
      sleep_with_jitter_60_10[of r] sleep_with_jitter_count[of jp base off m]
    by (intro conjI impI) (simp_all)
qed

text \<open>
  C3, witness: base 60 with 10 percent and \<^verbatim>\<open>rand()\<close> = 7 sleeps 61 seconds; of the
  first 26 values of \<^verbatim>\<open>rand()\<close> exactly two give the offset \<open>-6\<close>, that is a sleep
  of 54 seconds, and the value 0 does; base 0 with 10 percent is raised to 1; base 60
  without jitter sleeps 60, and base \<open>-5\<close> without jitter sleeps 4294967291.
\<close>

theorem sleep_with_jitter_duration_witness:
  "sleep_with_jitter 60 10 7 = Some 61
   \<and> card {v::int. 0 \<le> v \<and> v < 2 * (2 * 6 + 1) \<and> v mod (2 * 6 + 1) - 6 = - 6} = 2
   \<and> sleep_with_jitter 60 10 0 = Some 54
   \<and> sleep_with_jitter 0 10 0 = Some 1
   \<and> sleep_with_jitter 60 0 7 = Some 60
   \<and> sleep_with_jitter (- 5) 0 7 = Some 4294967291
   \<and> (\<exists>t. sleep_with_jitter 60 10 7 = Some t \<and> 54 \<le> t \<and> t \<le> 66)
   \<and> card {v. 0 \<le> v \<and> v < 26 \<and> sleep_with_jitter 60 10 v = Some 54} = 2"
  using sleep_with_jitter_duration[of 10 60 7 6 "- 6" 2 61]
    sleep_with_jitter_duration[of 10 0 7 0 0 0 1]
    sleep_with_jitter_duration[of 0 60 7 0 0 0 60]
    sleep_with_jitter_duration[of 0 "- 5" 7 0 0 0 60]
  by (simp add: INT_MAX_def INT_MIN_def)

text \<open>
  C3, counterexample: with base 0 and jitter 0 the code sleeps 0 seconds, where the
  claim's formula (offset 0, raised to 1) gives 1.
\<close>

theorem sleep_with_jitter_unclamped:
  "sleep_with_jitter 0 0 0 = Some 0 \<and> sleep_with_jitter 0 0 0 \<noteq> Some (max 1 (0 + 0))"
  by (simp add: sleep_with_jitter_def to_unsigned_def)

section \<open>Capturing the output of a shell command\<close>

lemma fgets_chunk_prefix: "prefix (fgets_chunk n stream) stream"
proof -
  define line where "line = takeWhile (\<lambda>c. c \<noteq> LF) stream"
  have split: "stream = line @ dropWhile (\<lambda>c. c \<noteq> LF) stream"
    by (simp add: line_def)
  show ?thesis
  proof (cases "length line < length stream")
    case True
    then have ne: "dropWhile (\<lambda>c. c \<noteq> LF) stream \<noteq> []"
      using split by (metis append_Nil2 less_irrefl)
    then have "hd (dropWhile (\<lambda>c. c \<noteq> LF) stream) = LF"
      using hd_dropWhile[of "\<lambda>c. c \<noteq> LF" stream] by simp
    with ne obtain rest where "dropWhile (\<lambda>c. c \<noteq> LF) stream = LF # rest"
      by (cases "dropWhile (\<lambda>c. c \<noteq> LF) stream") auto
    with split have "stream = (line @ [LF]) @ rest" by simp
    then have "prefix (line @ [LF]) stream" by (metis prefixI)
    then have "prefix (take (n - 1) (line @ [LF])) stream"
      by (meson prefix_order.trans take_is_prefix)
    with True show ?thesis by (simp add: fgets_chunk_def line_def[symmetric])
  next
    case False
    have "prefix line stream" using split by (metis prefixI)
    then have "prefix (take (n - 1) line) stream"
      by (meson prefix_order.trans take_is_prefix)
    with False show ?thesis by (simp add: fgets_chunk_def line_def[symmetric])
  qed
qed

lemma fgets_split: "fgets n stream = Some (buffer, rest) \<Longrightarrow> stream = buffer @ rest"
proof -
  assume "fgets n stream = Some (buffer, rest)"
  then have b: "buffer = fgets_chunk n stream" and r: "rest = drop (length buffer) stream"
    by (auto simp: fgets_def split: if_splits)
  from fgets_chunk_prefix[of n stream] b obtain zs where "stream = buffer @ zs"
    by (auto simp: prefix_def)
  with r show ?thesis by simp
qed

lemma fgets_None: "fgets n stream = None \<longleftrightarrow> stream = []"
  by (simp add: fgets_def)

lemma fgets_chunk_length: "length (fgets_chunk n stream) \<le> n - 1"
  by (simp add: fgets_chunk_def Let_def)

lemma fgets_length: "fgets n stream = Some (buffer, rest) \<Longrightarrow> length buffer \<le> n - 1"
  using fgets_chunk_length[of n stream] by (auto simp: fgets_def split: if_splits)

lemma c_str_id: "NUL \<notin> set s \<Longrightarrow> c_str s = s"
  by (auto simp: c_str_def takeWhile_eq_all_conv)

lemma strlen_le: "strlen s \<le> length s"
  by (simp add: strlen_def c_str_def length_takeWhile_le)

lemma read_pipe_no_fault:
  "0 < output_size \<Longrightarrow> \<exists>out'. read_pipe output_size stream out total_read = Some out'"
proof (induction output_size stream out total_read rule: read_pipe.induct)
  case (1 output_size stream out total_read)
  show ?case
  proof (cases "fgets 1024 stream")
    case None
    then show ?thesis by (subst read_pipe.simps) simp
  next
    case (Some x)
    obtain buffer rest where x: "x = (buffer, rest)" by (cases x)
    show ?thesis
    proof (cases "total_read < size_sub output_size 1 \<and>
                  total_read + strlen buffer < size_sub output_size 1")
      case True
      then have nf: "\<not> output_size < total_read + strlen buffer + 1"
        using "1.prems" by (auto simp: size_sub_def)
      from "1.IH"[OF Some x[symmetric] _ refl _ nf] True "1.prems"
      obtain out' where "read_pipe output_size rest (take total_read out @ c_str buffer)
                           (total_read + strlen buffer) = Some out'"
        by auto
      with Some x True nf show ?thesis
        by (subst read_pipe.simps) (simp add: Let_def)
    next
      case False
      with Some x show ?thesis
        by (subst read_pipe.simps) (auto simp: Let_def)
    qed
  qed
qed

lemma read_pipe_length:
  "read_pipe output_size stream out total_read = Some out' \<Longrightarrow> 0 < output_size \<Longrightarrow>
   total_read = length out \<Longrightarrow> length out' \<le> max (length out) (output_size - 2)"
proof (induction output_size stream out total_read arbitrary: out' rule: read_pipe.induct)
  case (1 output_size stream out total_read)
  show ?case
  proof (cases "fgets 1024 stream")
    case None
    with "1.prems" show ?thesis by (subst (asm) read_pipe.simps) simp
  next
    case (Some x)
    obtain buffer rest where x: "x = (buffer, rest)" by (cases x)
    show ?thesis
    proof (cases "total_read < size_sub output_size 1 \<and>
                  total_read + strlen buffer < size_sub output_size 1")
      case True
      then have nf: "\<not> output_size < total_read + strlen buffer + 1"
        using "1.prems"(2) by (auto simp: size_sub_def)
      from "1.prems"(1) Some x True nf
      have rec: "read_pipe output_size rest (take total_read out @ c_str buffer)
                   (total_read + strlen buffer) = Some out'"
        by (subst (asm) read_pipe.simps) (simp add: Let_def)
      have len: "total_read + strlen buffer = length (take total_read out @ c_str buffer)"
        using "1.prems"(3) by (simp add: strlen_def)
      from "1.IH"[OF Some x[symmetric] _ refl _ nf rec "1.prems"(2) len] True
      have "length out' \<le> max (length (take total_read out @ c_str buffer)) (output_size - 2)"
        by simp
      moreover have "length (take total_read out @ c_str buffer) \<le> output_size - 2"
        using len[symmetric] True "1.prems"(2) by (auto simp: size_sub_def)
      ultimately show ?thesis by simp
    next
      case False
      with Some x "1.prems"(1) have "out' = out"
        by (subst (asm) read_pipe.simps) (auto simp: Let_def split: if_splits)
      then show ?thesis by simp
    qed
  qed
qed


lemma read_pipe_prefix:
  "read_pipe output_size stream out total_read = Some out' \<Longrightarrow> total_read = length out \<Longrightarrow>
   NUL \<notin> set stream \<Longrightarrow> \<exists>p. out' = out @ p \<and> prefix p stream"
proof (induction output_size stream out total_read arbitrary: out' rule: read_pipe.induct)
  case (1 output_size stream out total_read)
  show ?case
  proof (cases "fgets 1024 stream")
    case None
    with "1.prems"(1) have "out' = out" by (subst (asm) read_pipe.simps) simp
    then show ?thesis by simp
  next
    case (Some x)
    obtain buffer rest where x: "x = (buffer, rest)" by (cases x)
    from Some x have split: "stream = buffer @ rest" by (simp add: fgets_split)
    with "1.prems"(3) have nul: "NUL \<notin> set buffer" "NUL \<notin> set rest" by auto
    show ?thesis
    proof (cases "total_read < size_sub output_size 1 \<and>
                  total_read + strlen buffer < size_sub output_size 1 \<and>
                  \<not> output_size < total_read + strlen buffer + 1")
      case True
      from "1.prems"(1) Some x True
      have rec: "read_pipe output_size rest (take total_read out @ c_str buffer)
                   (total_read + strlen buffer) = Some out'"
        by (subst (asm) read_pipe.simps) (simp add: Let_def)
      have len: "total_read + strlen buffer = length (take total_read out @ c_str buffer)"
        using "1.prems"(2) by (simp add: strlen_def)
      from "1.IH"[OF Some x[symmetric] _ refl _ _ rec len nul(2)] True
      obtain p where "out' = (take total_read out @ c_str buffer) @ p" "prefix p rest"
        by auto
      then have "out' = out @ (buffer @ p)" "prefix (buffer @ p) stream"
        using "1.prems"(2) nul(1) split by (simp_all add: c_str_id)
      then show ?thesis by blast
    next
      case False
      with Some x "1.prems"(1) have "out' = out"
        by (subst (asm) read_pipe.simps) (auto simp: Let_def split: if_splits)
      then show ?thesis by simp
    qed
  qed
qed

lemma read_pipe_cut:
  "read_pipe output_size stream out total_read = Some out' \<Longrightarrow> total_read = length out \<Longrightarrow>
   0 < output_size \<Longrightarrow> NUL \<notin> set stream \<Longrightarrow>
   out' = out @ stream \<or> output_size \<le> length out' + 1024"
proof (induction output_size stream out total_read arbitrary: out' rule: read_pipe.induct)
  case (1 output_size stream out total_read)
  show ?case
  proof (cases "fgets 1024 stream")
    case None
    with "1.prems"(1) have "out' = out" by (subst (asm) read_pipe.simps) simp
    moreover from None have "stream = []" by (simp add: fgets_None)
    ultimately show ?thesis by simp
  next
    case (Some x)
    obtain buffer rest where x: "x = (buffer, rest)" by (cases x)
    from Some x have split: "stream = buffer @ rest" by (simp add: fgets_split)
    from Some x have blen: "strlen buffer \<le> 1023"
      using fgets_length[of 1024 stream buffer rest] strlen_le[of buffer] by simp
    from split "1.prems"(4) have nul: "NUL \<notin> set buffer" "NUL \<notin> set rest" by auto
    show ?thesis
    proof (cases "total_read < size_sub output_size 1 \<and>
                  total_read + strlen buffer < size_sub output_size 1")
      case True
      then have nf: "\<not> output_size < total_read + strlen buffer + 1"
        using "1.prems"(3) by (auto simp: size_sub_def)
      from "1.prems"(1) Some x True nf
      have rec: "read_pipe output_size rest (take total_read out @ c_str buffer)
                   (total_read + strlen buffer) = Some out'"
        by (subst (asm) read_pipe.simps) (simp add: Let_def)
      have len: "total_read + strlen buffer = length (take total_read out @ c_str buffer)"
        using "1.prems"(2) by (simp add: strlen_def)
      from "1.IH"[OF Some x[symmetric] _ refl _ nf rec len "1.prems"(3) nul(2)] True
      have "out' = (take total_read out @ c_str buffer) @ rest \<or> output_size \<le> length out' + 1024"
        by simp
      then show ?thesis
        using "1.prems"(2) nul(1) split by (simp add: c_str_id)
    next
      case False
      with Some x "1.prems"(1) have eq: "out' = out"
        by (subst (asm) read_pipe.simps) (auto simp: Let_def split: if_splits)
      from False blen "1.prems"(2,3) have "output_size \<le> length out + 1024"
        by (auto simp: size_sub_def)
      with eq show ?thesis by simp
    qed
  qed
qed

lemma read_pipe_fits:
  "total_read = length out \<Longrightarrow> length out + length stream < output_size - 1 \<Longrightarrow>
   NUL \<notin> set stream \<Longrightarrow> read_pipe output_size stream out total_read = Some (out @ stream)"
proof (induction output_size stream out total_read rule: read_pipe.induct)
  case (1 output_size stream out total_read)
  show ?case
  proof (cases "fgets 1024 stream")
    case None
    then have "stream = []" by (simp add: fgets_None)
    with None show ?thesis by (subst read_pipe.simps) simp
  next
    case (Some x)
    obtain buffer rest where x: "x = (buffer, rest)" by (cases x)
    from Some x have split: "stream = buffer @ rest" by (simp add: fgets_split)
    from split "1.prems"(3) have nul: "NUL \<notin> set buffer" "NUL \<notin> set rest" by auto
    then have sl: "strlen buffer = length buffer" by (simp add: strlen_def c_str_id)
    have c1: "total_read < size_sub output_size 1"
      and c2: "total_read + strlen buffer < size_sub output_size 1"
      and nf: "\<not> output_size < total_read + strlen buffer + 1"
      using "1.prems"(1,2) split sl by (auto simp: size_sub_def)
    have len: "total_read + strlen buffer = length (take total_read out @ c_str buffer)"
      using "1.prems"(1) by (simp add: strlen_def)
    have fit: "length (take total_read out @ c_str buffer) + length rest < output_size - 1"
      using "1.prems"(1,2) split nul(1) by (simp add: c_str_id)
    from "1.IH"[OF Some x[symmetric] c1 refl c2 nf len fit nul(2)]
    have "read_pipe output_size rest (take total_read out @ c_str buffer)
            (total_read + strlen buffer) = Some ((take total_read out @ c_str buffer) @ rest)" .
    with Some x c1 c2 nf show ?thesis
      using "1.prems"(1) nul(1) split
      by (subst read_pipe.simps) (simp add: Let_def c_str_id)
  qed
qed

lemma fgets_replicate:
  assumes "a \<noteq> LF" and "0 < n"
  shows "fgets 1024 (replicate n a) = Some (replicate (min 1023 n) a, replicate (n - 1023) a)"
proof -
  have tw: "takeWhile (\<lambda>c. c \<noteq> LF) (replicate n a) = replicate n a"
    using assms(1) by (simp add: takeWhile_eq_all_conv)
  have "fgets_chunk 1024 (replicate n a) = replicate (min 1023 n) a"
    unfolding fgets_chunk_def Let_def tw by simp
  with assms(2) show ?thesis
    by (simp add: fgets_def)
qed

lemma read_pipe_replicate:
  assumes "a \<noteq> LF" and "a \<noteq> NUL" and "0 < output_size"
  shows "read_pipe output_size (replicate n a) (replicate t a) t =
     (if n = 0 then Some (replicate t a)
      else if t + min 1023 n < output_size - 1
      then read_pipe output_size (replicate (n - 1023) a) (replicate (t + min 1023 n) a)
             (t + min 1023 n)
      else Some (replicate t a))"
proof (cases "n = 0")
  case True
  then show ?thesis by (subst read_pipe.simps) (simp add: fgets_def)
next
  case False
  then have fg: "fgets 1024 (replicate n a) =
      Some (replicate (min 1023 n) a, replicate (n - 1023) a)"
    using assms(1) by (simp add: fgets_replicate)
  have sl: "strlen (replicate (min 1023 n) a) = min 1023 n"
    "c_str (replicate (min 1023 n) a) = replicate (min 1023 n) a"
    using assms(2) by (simp_all add: strlen_def c_str_id)
  have pos: "0 < min 1023 n" using False by simp
  show ?thesis
    using False assms(3) pos
    by (subst read_pipe.simps) (auto simp: fg sl Let_def size_sub_def replicate_add)
qed

text \<open>
  C8, as the code has it.  When \<^verbatim>\<open>popen\<close> succeeds and the output array has at least
  one byte, \<^verbatim>\<open>execute_shell_command\<close> writes nothing outside the array and returns 1
  or 0 from the exit status alone.  The stored text has at most \<open>output_size - 2\<close>
  characters.  For output without NUL bytes it is a prefix of the output; it is the
  whole output when that has fewer than \<open>output_size - 1\<close> characters, and otherwise
  it stops at a chunk boundary less than 1024 characters below the size of the array.
\<close>

theorem execute_shell_command_truncates:
  "popen env cmdline = Some (stream, exit_status) \<and> 0 < output_size \<longrightarrow>
     (\<exists>out'. execute_shell_command env cmdline [] output_size =
               Some (if exit_status = 0 then 1 else 0, out')
        \<and> length out' \<le> output_size - 2
        \<and> (NUL \<notin> set stream \<longrightarrow>
             prefix out' stream
             \<and> (length stream < output_size - 1 \<longrightarrow> out' = stream)
             \<and> (output_size - 1 \<le> length stream \<longrightarrow> output_size \<le> length out' + 1024)))"
proof (intro impI, elim conjE)
  assume po: "popen env cmdline = Some (stream, exit_status)" and sz: "0 < output_size"
  from read_pipe_no_fault[OF sz, of stream "[]" 0]
  obtain out' where rp: "read_pipe output_size stream [] 0 = Some out'" by blast
  have ex: "execute_shell_command env cmdline [] output_size =
              Some (if exit_status = 0 then 1 else 0, out')"
    using po rp by (simp add: execute_shell_command_def del: read_pipe.simps)
  have len: "length out' \<le> output_size - 2"
    using read_pipe_length[OF rp sz] by simp
  have rest: "prefix out' stream \<and> (length stream < output_size - 1 \<longrightarrow> out' = stream)
      \<and> (output_size - 1 \<le> length stream \<longrightarrow> output_size \<le> length out' + 1024)"
    if nul: "NUL \<notin> set stream"
  proof (intro conjI impI)
    from read_pipe_prefix[OF rp _ nul] show "prefix out' stream" by simp
  next
    assume "length stream < output_size - 1"
    then have "read_pipe output_size stream [] 0 = Some ([] @ stream)"
      using nul by (intro read_pipe_fits) simp_all
    with rp show "out' = stream" by simp
  next
    assume big: "output_size - 1 \<le> length stream"
    from read_pipe_cut[OF rp _ sz nul]
    have "out' = stream \<or> output_size \<le> length out' + 1024" by simp
    then show "output_size \<le> length out' + 1024"
      using big len sz by auto
  qed
  from ex len rest show "\<exists>out'. execute_shell_command env cmdline [] output_size =
               Some (if exit_status = 0 then 1 else 0, out')
        \<and> length out' \<le> output_size - 2
        \<and> (NUL \<notin> set stream \<longrightarrow>
             prefix out' stream
             \<and> (length stream < output_size - 1 \<longrightarrow> out' = stream)
             \<and> (output_size - 1 \<le> length stream \<longrightarrow> output_size \<le> length out' + 1024))"
    by blast
qed

text \<open>
  C8, witness: 20000 letters captured into the 16384 bytes of \<^verbatim>\<open>result->output\<close>.
\<close>

theorem execute_shell_command_truncates_witness:
  "\<exists>out'. execute_shell_command long_output_env ''yes'' [] MAX_OUTPUT_SIZE = Some (1, out')
     \<and> length out' \<le> 16382
     \<and> prefix out' (replicate 20000 (CHR ''a''))
     \<and> 16384 \<le> length out' + 1024"
  using execute_shell_command_truncates
          [of long_output_env "''yes''" "replicate 20000 (CHR ''a'')" 0 MAX_OUTPUT_SIZE]
  by (simp add: long_output_env_def MAX_OUTPUT_SIZE_def NUL_def del: replicate.simps)

text \<open>
  C8, counterexample: of 20000 letters the code keeps 16368 (sixteen chunks of 1023),
  which is neither the 16383 characters the array can hold nor its size 16384.
\<close>

theorem execute_shell_command_not_exact:
  "execute_shell_command long_output_env ''yes'' [] MAX_OUTPUT_SIZE =
     Some (1, replicate 16368 (CHR ''a''))
   \<and> length (replicate 16368 (CHR ''a'')) \<noteq> MAX_OUTPUT_SIZE - 1
   \<and> length (replicate 16368 (CHR ''a'')) \<noteq> MAX_OUTPUT_SIZE"
proof -
  have "read_pipe 16384 (replicate 20000 (CHR ''a'')) (replicate 0 (CHR ''a'')) 0 =
          Some (replicate 16368 (CHR ''a''))"
    by (simp add: read_pipe_replicate LF_def NUL_def del: replicate.simps read_pipe.simps)
  then show ?thesis
    by (simp add: execute_shell_command_def long_output_env_def MAX_OUTPUT_SIZE_def
          del: read_pipe.simps)
qed

section \<open>The payload and the transport when everything fits\<close>

lemma result_text_nonempty: "0 < length (result_text i r)"
  by (simp add: result_text_def)

lemma snprintf_fits: "length text < n \<Longrightarrow> snprintf n text = (text, length text)"
  by (simp add: snprintf_def)

lemma snprintf_at_fits:
  "offset = length buf \<Longrightarrow> length buf + length text < cap \<Longrightarrow>
   snprintf_at cap buf offset text = Some (buf @ text, length text)"
  by (simp add: snprintf_at_def)

lemma results_loop_fits:
  "offset = length json \<Longrightarrow> length json + length (results_texts i rs) \<le> MAX_BUFFER_SIZE - 256 \<Longrightarrow>
   results_loop rs i json offset =
     Some (json @ results_texts i rs, offset + length (results_texts i rs))"
proof (induction rs arbitrary: i json offset)
  case Nil
  then show ?case by simp
next
  case (Cons r rs)
  have pos: "0 < length (result_text i r)" by (rule result_text_nonempty)
  have lt: "offset < MAX_BUFFER_SIZE - 256"
    using Cons.prems pos by (simp del: length_greater_0_conv)
  from Cons.prems have fit: "length json + length (result_text i r) < MAX_BUFFER_SIZE"
    by (simp add: MAX_BUFFER_SIZE_def)
  have sn: "snprintf_at MAX_BUFFER_SIZE json offset (result_text i r) =
              Some (json @ result_text i r, length (result_text i r))"
    using Cons.prems(1) fit by (rule snprintf_at_fits)
  have ih: "results_loop rs (Suc i) (json @ result_text i r) (offset + length (result_text i r)) =
      Some ((json @ result_text i r) @ results_texts (Suc i) rs,
            (offset + length (result_text i r)) + length (results_texts (Suc i) rs))"
    using Cons.prems by (intro Cons.IH) simp_all
  show ?case
    using lt sn ih by simp
qed

lemma http_checkin_json_results:
  assumes n: "0 < n" "n \<le> length arr"
    and fit: "length (results_open_text config) + length (results_texts 0 (take n arr))
                \<le> MAX_BUFFER_SIZE - 256"
  shows "http_checkin_json config None (Some arr) n =
           Some (results_open_text config @ results_texts 0 (take n arr) @ '']}'')"
proof -
  have o: "snprintf MAX_BUFFER_SIZE (results_open_text config) =
             (results_open_text config, length (results_open_text config))"
    using fit by (intro snprintf_fits) (simp add: MAX_BUFFER_SIZE_def)
  have l: "results_loop (take n arr) 0 (results_open_text config)
             (length (results_open_text config)) =
           Some (results_open_text config @ results_texts 0 (take n arr),
                 length (results_open_text config) + length (results_texts 0 (take n arr)))"
    using fit by (intro results_loop_fits) simp_all
  have c: "snprintf_at MAX_BUFFER_SIZE (results_open_text config @ results_texts 0 (take n arr))
             (length (results_open_text config) + length (results_texts 0 (take n arr))) '']}'' =
           Some ((results_open_text config @ results_texts 0 (take n arr)) @ '']}'', length '']}'')"
    using fit by (intro snprintf_at_fits) (simp_all add: MAX_BUFFER_SIZE_def)
  show ?thesis
    using n by (simp add: http_checkin_json_def has_results_def o l c)
qed

lemma http_request_answer:
  assumes pu: "parse_url url = Some (host_name, port, path, use_ssl)"
    and up: "0 \<le> socket_fd net_answers" "host_found net_answers"
            "0 \<le> connect_rc net_answers" "0 \<le> send_rc net_answers"
    and fit: "length (request_head method path host_name headers) +
              length (case body of None \<Rightarrow> [] | Some d \<Rightarrow> d) < MAX_BUFFER_SIZE"
    and st: "(case strstr (c_str (inbound net_answers)) ''HTTP/1.1 '' of
                None \<Rightarrow> Some 0 | Some status_line \<Rightarrow> atoi (drop 9 status_line)) = Some code"
  shows "http_request net_answers method url headers body =
           Some (0, \<lparr>status_code = code, data = Some (inbound net_answers)\<rparr>,
                 Some (host_name, port,
                       request_head method path host_name headers @
                       (case body of None \<Rightarrow> [] | Some d \<Rightarrow> d)))"
proof -
  have h: "snprintf MAX_BUFFER_SIZE (request_head method path host_name headers) =
             (request_head method path host_name headers,
              length (request_head method path host_name headers))"
    using fit by (intro snprintf_fits) simp
  show ?thesis
  proof (cases body)
    case None
    with fit have "\<not> MAX_BUFFER_SIZE < length (request_head method path host_name headers)"
      by simp
    with None show ?thesis
      using pu up st by (simp add: http_request_def h)
  next
    case (Some d)
    with fit have f: "length (request_head method path host_name headers) + length d
                        < MAX_BUFFER_SIZE" by simp
    have a: "snprintf_at MAX_BUFFER_SIZE (request_head method path host_name headers)
               (length (request_head method path host_name headers)) d =
             Some (request_head method path host_name headers @ d, length d)"
      using f by (intro snprintf_at_fits) simp_all
    from f have "\<not> MAX_BUFFER_SIZE < length (request_head method path host_name headers) + length d"
      by simp
    with Some show ?thesis
      using pu up st by (simp add: http_request_def h a)
  qed
qed

lemma http_request_refused:
  assumes "parse_url url = Some (host_name, port, path, use_ssl)"
    and "socket_fd net_answers < 0 \<or> \<not> host_found net_answers \<or> connect_rc net_answers < 0"
  shows "http_request net_answers method url headers body = Some (- 1, no_response, None)"
  using assms by (auto simp: http_request_def)

lemma cycle_result:
  assumes "sleep_with_jitter (sleep_interval config) (jitter_percent config) (rand_value e) = Some t"
    and "checkin (net e) config None (Some (g_results st)) (g_result_count st) =
           Some (rc, None, 0, x)"
  shows "cycle config e st =
           Some (if rc = 0 then st\<lparr>g_result_count := 0\<rparr> else st, [Sleep t, Checkin x])"
  using assms by (simp add: cycle_def commands_array_def after_checkin_def)

section \<open>The result buffer across the loop\<close>

lemma process_commands_count:
  "process_commands cmds st = Some st' \<Longrightarrow> g_result_count st \<le> 64 \<Longrightarrow>
   g_result_count st' = min 64 (g_result_count st + length cmds)"
proof (induction cmds st arbitrary: st' rule: process_commands.induct)
  case (1 st)
  then show ?case by simp
next
  case (2 cmd env rest st)
  show ?case
  proof (cases "g_result_count st < 64")
    case True
    with "2.prems"(1) obtain result running where
      ex: "execute_command env cmd (g_running st) = Some (result, running)" and
      rec: "process_commands rest
              (st\<lparr>g_running := running,
                  g_results := (g_results st)[g_result_count st := result],
                  g_result_count := g_result_count st + 1\<rparr>) = Some st'"
      by (auto split: bind_splits)
    from "2.IH"(1)[OF True ex refl rec] True show ?thesis by simp
  next
    case False
    with "2.prems"(1) have "process_commands rest st = Some st'" by simp
    from "2.IH"(2)[OF False this "2.prems"(2)] False "2.prems"(2) show ?thesis by simp
  qed
qed

lemma process_commands_full:
  "g_result_count st = 64 \<Longrightarrow> process_commands cmds st = Some st"
  by (induction cmds) auto

lemma process_commands_length:
  "process_commands cmds st = Some st' \<Longrightarrow> length (g_results st') = length (g_results st)"
proof (induction cmds st arbitrary: st' rule: process_commands.induct)
  case (1 st)
  then show ?case by simp
next
  case (2 cmd env rest st)
  show ?case
  proof (cases "g_result_count st < 64")
    case True
    with "2.prems"(1) obtain result running where
      ex: "execute_command env cmd (g_running st) = Some (result, running)" and
      rec: "process_commands rest
              (st\<lparr>g_running := running,
                  g_results := (g_results st)[g_result_count st := result],
                  g_result_count := g_result_count st + 1\<rparr>) = Some st'"
      by (auto split: bind_splits)
    from "2.IH"(1)[OF True ex refl rec] show ?thesis by simp
  next
    case False
    with "2.prems"(1) have "process_commands rest st = Some st'" by simp
    from "2.IH"(2)[OF False this] show ?thesis .
  qed
qed

lemma after_checkin_count:
  "after_checkin rc received st = Some st' \<Longrightarrow> g_result_count st \<le> 64 \<Longrightarrow>
   g_result_count st' \<le> 64"
  by (auto simp: after_checkin_def dest!: process_commands_count split: if_splits)

lemma cycle_count:
  "cycle config e st = Some (st', fx) \<Longrightarrow> g_result_count st \<le> 64 \<Longrightarrow> g_result_count st' \<le> 64"
  by (auto simp: cycle_def dest: after_checkin_count split: bind_splits prod.splits)

lemma beacon_main_loop_count:
  "beacon_main_loop config es st = Some (rc, st', fx) \<Longrightarrow> g_result_count st \<le> 64 \<Longrightarrow>
   g_result_count st' \<le> 64"
proof (induction es arbitrary: st rc st' fx)
  case Nil
  then show ?case by simp
next
  case (Cons e es)
  show ?case
  proof (cases "g_running st")
    case True
    with Cons.prems(1) obtain st1 fx1 fx2 where
      c: "cycle config e st = Some (st1, fx1)" and
      l: "beacon_main_loop config es st1 = Some (rc, st', fx2)"
      by (auto split: bind_splits)
    from cycle_count[OF c Cons.prems(2)] have "g_result_count st1 \<le> 64" .
    from Cons.IH[OF l this] show ?thesis .
  next
    case False
    with Cons.prems show ?thesis by simp
  qed
qed

lemma finish_checkin_commands:
  "finish_checkin method body r = (rc, commands, command_count, x) \<Longrightarrow>
   commands = None \<and> command_count = 0 \<and> req_method x = method \<and> req_body x = body"
  by (auto simp: finish_checkin_def parse_commands_json_def
           split: prod.splits option.splits if_splits)

lemma finish_checkin_rc:
  "fst (finish_checkin method body (result, response, w)) =
     (if result = 0 \<and> status_code response = 200 \<and> data response \<noteq> None then 0 else - 1)"
  by (auto simp: finish_checkin_def parse_commands_json_def split: option.splits)

lemma finish_checkin_exchange:
  "finish_checkin method body (result, response, w) = (rc, commands, command_count, x) \<Longrightarrow>
   x = \<lparr>req_method = method, req_body = body, on_wire = w\<rparr>"
  by (auto simp: finish_checkin_def parse_commands_json_def
           split: prod.splits option.splits if_splits)

lemma checkin_transport:
  "checkin net_answers config sysinfo results result_count = Some c \<Longrightarrow>
   \<exists>method body r.
     http_request net_answers method (server_url config) (checkin_headers config) body = Some r \<and>
     c = finish_checkin method body r"
  by (auto simp: checkin_def http_checkin_def https_checkin_def https_request_def Let_def
           split: if_splits bind_splits) blast+

lemma cycle_buffer:
  assumes "cycle config e st = Some (st', fx)"
  shows "\<exists>method body result response w t.
           http_request (net e) method (server_url config) (checkin_headers config) body =
             Some (result, response, w) \<and>
           fx = [Sleep t, Checkin \<lparr>req_method = method, req_body = body, on_wire = w\<rparr>] \<and>
           (if result = 0 \<and> status_code response = 200 \<and> data response \<noteq> None
            then g_result_count st' = 0 \<and> queued st' = []
            else g_results st' = g_results st \<and> g_result_count st' = g_result_count st)"
proof -
  from assms obtain t rc commands command_count x cs where
    ck: "checkin (net e) config None (Some (g_results st)) (g_result_count st) =
           Some (rc, commands, command_count, x)" and
    cs: "(if rc = 0 then commands_array commands command_count else Some []) = Some cs" and
    ac: "after_checkin rc (zip cs (map (host e) [0..<length cs])) st = Some st'" and
    fx: "fx = [Sleep t, Checkin x]"
    by (auto simp: cycle_def split: bind_splits)
  from checkin_transport[OF ck] obtain m b r where
    hr: "http_request (net e) m (server_url config) (checkin_headers config) b = Some r" and
    fc: "finish_checkin m b r = (rc, commands, command_count, x)"
    by auto
  obtain result response w where r: "r = (result, response, w)" by (cases r)
  from finish_checkin_commands[OF fc] have none: "commands = None" "command_count = 0" by simp_all
  from finish_checkin_exchange[OF fc[unfolded r]]
  have x: "x = \<lparr>req_method = m, req_body = b, on_wire = w\<rparr>" .
  from none cs have "cs = []" by (auto simp: commands_array_def split: if_splits)
  with ac have st': "st' = (if rc = 0 then st\<lparr>g_result_count := 0\<rparr> else st)"
    by (auto simp: after_checkin_def split: if_splits)
  from fc r finish_checkin_rc[of m b result response w]
  have rc: "rc = (if result = 0 \<and> status_code response = 200 \<and> data response \<noteq> None
                  then 0 else - 1)"
    by simp
  show ?thesis
    using hr r st' rc fx x by (auto simp: queued_def intro!: exI)
qed

section \<open>Evaluating the concrete inputs\<close>

lemma finish_checkin_200:
  "finish_checkin method body (0, \<lparr>status_code = 200, data = Some d\<rparr>, w) =
     (0, None, 0, \<lparr>req_method = method, req_body = body, on_wire = w\<rparr>)"
  by (simp add: finish_checkin_def parse_commands_json_def split: option.splits)

lemma finish_checkin_failed:
  "\<not> (result = 0 \<and> status_code response = 200 \<and> data response \<noteq> None) \<Longrightarrow>
   finish_checkin method body (result, response, w) =
     (- 1, None, 0, \<lparr>req_method = method, req_body = body, on_wire = w\<rparr>)"
  by (auto simp: finish_checkin_def)

lemma http_request_shape:
  assumes "http_request net_answers method url headers body = Some (result, response, w)"
  shows "if socket_fd net_answers < 0 \<or> \<not> host_found net_answers \<or>
            connect_rc net_answers < 0 \<or> send_rc net_answers < 0
         then result = - 1 \<and> response = no_response \<and> w = None
         else result = 0 \<and> data response = Some (inbound net_answers) \<and>
              (case strstr (c_str (inbound net_answers)) ''HTTP/1.1 '' of
                 None \<Rightarrow> Some 0
               | Some status_line \<Rightarrow> atoi (drop 9 status_line)) = Some (status_code response) \<and>
              w \<noteq> None"
  using assms
  by (auto simp: http_request_def Let_def split: bind_splits prod.splits if_splits option.splits)

lemma parse_url_http_example:
  "parse_url ''http://c2.example/api'' = Some (''c2.example'', 80, ''/api'', 0)"
  by (simp add: parse_url_def strchr_def)

lemma parse_url_https_example:
  "parse_url ''https://c2.example/api'' = Some (''c2.example'', 443, ''/api'', 1)"
  by (simp add: parse_url_def strchr_def)

lemma status_200_html:
  "(case strstr (c_str (inbound answers_200_html)) ''HTTP/1.1 '' of
      None \<Rightarrow> Some 0 | Some status_line \<Rightarrow> atoi (drop 9 status_line)) = Some 200"
  by (simp add: answers_200_html_def c_str_def NUL_def CRLF_def atoi_def isspace_def isdigit_def
        c_int_def INT_MIN_def INT_MAX_def)

lemma status_500:
  "(case strstr (c_str (inbound answers_500)) ''HTTP/1.1 '' of
      None \<Rightarrow> Some 0 | Some status_line \<Rightarrow> atoi (drop 9 status_line)) = Some 500"
  by (simp add: answers_500_def c_str_def NUL_def CRLF_def atoi_def isspace_def isdigit_def
        c_int_def INT_MIN_def INT_MAX_def)

lemma checkin_headers_example:
  "checkin_headers example_config =
     ''User-Agent: '' @ USER_AGENT @ CRLF @
     ''Content-Type: application/json'' @ CRLF @
     ''X-Beacon-ID: b1'' @ CRLF"
  by (simp add: checkin_headers_def example_config_def default_config_def snprintf_def
        USER_AGENT_def CRLF_def)

lemma checkin_headers_https: "checkin_headers https_config = checkin_headers example_config"
  by (simp add: checkin_headers_def example_config_def https_config_def default_config_def)

lemma request_head_short:
  "length (request_head method ''/api'' ''c2.example'' (checkin_headers example_config))
     < length method + 1000"
  by (simp add: request_head_def checkin_headers_example USER_AGENT_def CRLF_def)

lemma one_queued_body_short:
  "length (results_open_text example_config @ result_text 0 one_result @ '']}'') < 1000"
  by (simp add: results_open_text_def result_text_def one_result_def example_config_def
        default_config_def placeholder_timestamp_def)

lemma json_one_queued:
  "http_checkin_json example_config None (Some (g_results one_queued)) (Suc 0) =
     Some (results_open_text example_config @ result_text 0 one_result @ '']}'')"
proof -
  have "http_checkin_json example_config None (Some (g_results one_queued)) (Suc 0) =
     Some (results_open_text example_config @
           results_texts 0 (take (Suc 0) (g_results one_queued)) @ '']}'')"
    using one_queued_body_short
    by (intro http_checkin_json_results) (simp_all add: one_queued_def MAX_BUFFER_SIZE_def)
  then show ?thesis by (simp add: one_queued_def)
qed

lemma sleep_example: "sleep_with_jitter (sleep_interval example_config)
    (jitter_percent example_config) 7 = Some 61"
  by (simp add: example_config_def default_config_def sleep_with_jitter_def c_int_def
        INT_MIN_def INT_MAX_def c_div_def c_mod_def to_unsigned_def UINT_MAX_def)

lemma checkin_one_queued_200:
  "checkin answers_200_html example_config None (Some (g_results one_queued)) 1 =
     Some (0, None, 0,
       \<lparr>req_method = ''POST'',
        req_body = Some (results_open_text example_config @ result_text 0 one_result @ '']}''),
        on_wire = Some (''c2.example'', 80,
          request_head ''POST'' ''/api'' ''c2.example'' (checkin_headers example_config) @
          results_open_text example_config @ result_text 0 one_result @ '']}'')\<rparr>)"
proof -
  let ?body = "Some (results_open_text example_config @ result_text 0 one_result @ '']}'')"
  have url: "server_url example_config = ''http://c2.example/api''"
    by (simp add: example_config_def)
  have "http_request answers_200_html ''POST'' ''http://c2.example/api''
          (checkin_headers example_config) ?body =
        Some (0, \<lparr>status_code = 200, data = Some (inbound answers_200_html)\<rparr>,
              Some (''c2.example'', 80,
                    request_head ''POST'' ''/api'' ''c2.example'' (checkin_headers example_config) @
                    (case ?body of None \<Rightarrow> [] | Some d \<Rightarrow> d)))"
  proof (rule http_request_answer[OF parse_url_http_example _ _ _ _ _ status_200_html])
    show "length (request_head ''POST'' ''/api'' ''c2.example'' (checkin_headers example_config)) +
          length (case ?body of None \<Rightarrow> [] | Some d \<Rightarrow> d) < MAX_BUFFER_SIZE"
      using request_head_short[of "''POST''"] one_queued_body_short
      by (simp add: MAX_BUFFER_SIZE_def)
  qed (simp_all add: answers_200_html_def)
  then show ?thesis
    by (simp add: checkin_def http_checkin_def url json_one_queued has_results_def
          finish_checkin_200 Let_def)
qed

lemma checkin_one_queued_refused:
  "checkin refuses example_config None (Some (g_results one_queued)) 1 =
     Some (- 1, None, 0,
       \<lparr>req_method = ''POST'',
        req_body = Some (results_open_text example_config @ result_text 0 one_result @ '']}''),
        on_wire = None\<rparr>)"
proof -
  have url: "server_url example_config = ''http://c2.example/api''"
    by (simp add: example_config_def)
  have "http_request refuses ''POST'' ''http://c2.example/api'' hs b =
          Some (- 1, no_response, None)" for hs b
    by (rule http_request_refused[OF parse_url_http_example]) (simp add: refuses_def)
  then show ?thesis
    by (simp add: checkin_def http_checkin_def url json_one_queued has_results_def
          finish_checkin_failed Let_def)
qed

lemma cycle_one_queued_200:
  "cycle example_config cycle_200_html one_queued =
     Some (one_queued\<lparr>g_result_count := 0\<rparr>,
       [Sleep 61, Checkin
         \<lparr>req_method = ''POST'',
          req_body = Some (results_open_text example_config @ result_text 0 one_result @ '']}''),
          on_wire = Some (''c2.example'', 80,
            request_head ''POST'' ''/api'' ''c2.example'' (checkin_headers example_config) @
            results_open_text example_config @ result_text 0 one_result @ '']}'')\<rparr>])"
  using cycle_result[of example_config cycle_200_html 61 one_queued 0]
    sleep_example checkin_one_queued_200
  by (simp add: cycle_200_html_def one_queued_def)

lemma cycle_one_queued_refused:
  "cycle example_config cycle_refused one_queued =
     Some (one_queued,
       [Sleep 61, Checkin
         \<lparr>req_method = ''POST'',
          req_body = Some (results_open_text example_config @ result_text 0 one_result @ '']}''),
          on_wire = None\<rparr>])"
  using cycle_result[of example_config cycle_refused 61 one_queued "- 1"]
    sleep_example checkin_one_queued_refused
  by (simp add: cycle_refused_def one_queued_def)

lemma checkin_one_queued_500:
  "checkin answers_500 example_config None (Some (g_results one_queued)) 1 =
     Some (- 1, None, 0,
       \<lparr>req_method = ''POST'',
        req_body = Some (results_open_text example_config @ result_text 0 one_result @ '']}''),
        on_wire = Some (''c2.example'', 80,
          request_head ''POST'' ''/api'' ''c2.example'' (checkin_headers example_config) @
          results_open_text example_config @ result_text 0 one_result @ '']}'')\<rparr>)"
proof -
  let ?body = "Some (results_open_text example_config @ result_text 0 one_result @ '']}'')"
  have url: "server_url example_config = ''http://c2.example/api''"
    by (simp add: example_config_def)
  have "http_request answers_500 ''POST'' ''http://c2.example/api''
          (checkin_headers example_config) ?body =
        Some (0, \<lparr>status_code = 500, data = Some (inbound answers_500)\<rparr>,
              Some (''c2.example'', 80,
                    request_head ''POST'' ''/api'' ''c2.example'' (checkin_headers example_config) @
                    (case ?body of None \<Rightarrow> [] | Some d \<Rightarrow> d)))"
  proof (rule http_request_answer[OF parse_url_http_example _ _ _ _ _ status_500])
    show "length (request_head ''POST'' ''/api'' ''c2.example'' (checkin_headers example_config)) +
          length (case ?body of None \<Rightarrow> [] | Some d \<Rightarrow> d) < MAX_BUFFER_SIZE"
      using request_head_short[of "''POST''"] one_queued_body_short
      by (simp add: MAX_BUFFER_SIZE_def)
  qed (simp_all add: answers_500_def)
  then show ?thesis
    by (simp add: checkin_def http_checkin_def url json_one_queued has_results_def
          finish_checkin_failed Let_def)
qed

lemma cycle_one_queued_500:
  "cycle example_config cycle_500 one_queued =
     Some (one_queued,
       [Sleep 61, Checkin
         \<lparr>req_method = ''POST'',
          req_body = Some (results_open_text example_config @ result_text 0 one_result @ '']}''),
          on_wire = Some (''c2.example'', 80,
            request_head ''POST'' ''/api'' ''c2.example'' (checkin_headers example_config) @
            results_open_text example_config @ result_text 0 one_result @ '']}'')\<rparr>])"
  using cycle_result[of example_config cycle_500 61 one_queued "- 1"]
    sleep_example checkin_one_queued_500
  by (simp add: cycle_500_def one_queued_def)

section \<open>Clearing the result buffer\<close>

text \<open>
  C1, as the code has it.  In every iteration of the loop the buffer is cleared exactly
  when the transport call of that iteration returned 0 with status code 200 and a
  response buffer that is not NULL; the body is not examined.  Otherwise the array and
  the count are as before.
\<close>

theorem buffer_cleared_iff_status_200:
  "cycle config e st = Some (st', fx) \<longrightarrow>
     (\<exists>method body result response w t.
        http_request (net e) method (server_url config) (checkin_headers config) body =
          Some (result, response, w) \<and>
        fx = [Sleep t, Checkin \<lparr>req_method = method, req_body = body, on_wire = w\<rparr>] \<and>
        (if result = 0 \<and> status_code response = 200 \<and> data response \<noteq> None
         then g_result_count st' = 0 \<and> queued st' = []
         else g_results st' = g_results st \<and> g_result_count st' = g_result_count st))"
  using cycle_buffer[of config e st st' fx] by blast

text \<open>
  C1, witness: with one result queued, a refused connection and an answer with status
  500 leave the buffer as it was, and an answer with status 200 empties it.
\<close>

theorem buffer_cleared_iff_status_200_witness:
  "(\<exists>st' fx. cycle example_config cycle_refused one_queued = Some (st', fx) \<and>
      g_results st' = g_results one_queued \<and> g_result_count st' = 1)
   \<and> (\<exists>st' fx. cycle example_config cycle_500 one_queued = Some (st', fx) \<and>
      g_results st' = g_results one_queued \<and> g_result_count st' = 1)
   \<and> (\<exists>st' fx. cycle example_config cycle_200_html one_queued = Some (st', fx) \<and>
      g_result_count st' = 0 \<and> queued st' = [])"
proof (intro conjI)
  from cycle_one_queued_refused obtain fx where
    c: "cycle example_config cycle_refused one_queued = Some (one_queued, fx)" by blast
  from buffer_cleared_iff_status_200[of example_config cycle_refused one_queued one_queued fx] c
  obtain m b result response w where
    hr: "http_request (net cycle_refused) m (server_url example_config)
           (checkin_headers example_config) b = Some (result, response, w)" and
    eff: "if result = 0 \<and> status_code response = 200 \<and> data response \<noteq> None
          then g_result_count one_queued = 0 \<and> queued one_queued = []
          else g_results one_queued = g_results one_queued \<and>
               g_result_count one_queued = g_result_count one_queued"
    by blast
  from http_request_shape[OF hr] have "result = - 1"
    by (simp add: cycle_refused_def refuses_def)
  with eff c
  show "\<exists>st' fx. cycle example_config cycle_refused one_queued = Some (st', fx) \<and>
      g_results st' = g_results one_queued \<and> g_result_count st' = 1"
    by (simp add: one_queued_def)
next
  from cycle_one_queued_500 obtain fx where
    c: "cycle example_config cycle_500 one_queued = Some (one_queued, fx)" by blast
  from buffer_cleared_iff_status_200[of example_config cycle_500 one_queued one_queued fx] c
  obtain m b result response w where
    hr: "http_request (net cycle_500) m (server_url example_config)
           (checkin_headers example_config) b = Some (result, response, w)" and
    eff: "if result = 0 \<and> status_code response = 200 \<and> data response \<noteq> None
          then g_result_count one_queued = 0 \<and> queued one_queued = []
          else g_results one_queued = g_results one_queued \<and>
               g_result_count one_queued = g_result_count one_queued"
    by blast
  from http_request_shape[OF hr] status_500 have "status_code response = 500"
    by (simp add: cycle_500_def answers_500_def)
  with eff c
  show "\<exists>st' fx. cycle example_config cycle_500 one_queued = Some (st', fx) \<and>
      g_results st' = g_results one_queued \<and> g_result_count st' = 1"
    by (simp add: one_queued_def)
next
  let ?st = "one_queued\<lparr>g_result_count := 0\<rparr>"
  from cycle_one_queued_200 obtain fx where
    c: "cycle example_config cycle_200_html one_queued = Some (?st, fx)" by blast
  from buffer_cleared_iff_status_200[of example_config cycle_200_html one_queued ?st fx] c
  obtain m b result response w where
    hr: "http_request (net cycle_200_html) m (server_url example_config)
           (checkin_headers example_config) b = Some (result, response, w)" and
    eff: "if result = 0 \<and> status_code response = 200 \<and> data response \<noteq> None
          then g_result_count ?st = 0 \<and> queued ?st = []
          else g_results ?st = g_results one_queued \<and>
               g_result_count ?st = g_result_count one_queued"
    by blast
  from http_request_shape[OF hr] status_200_html
  have "result = 0 \<and> status_code response = 200 \<and> data response \<noteq> None"
    by (simp add: cycle_200_html_def answers_200_html_def)
  with eff c
  show "\<exists>st' fx. cycle example_config cycle_200_html one_queued = Some (st', fx) \<and>
      g_result_count st' = 0 \<and> queued st' = []"
    by simp
qed

text \<open>
  C1, counterexample: the answer is \<open>HTTP/1.1 200 OK\<close> followed by \<open><html>\<close>, which
  holds no \<open>{\<close> and so no document of the wire format; the one queued result is
  dropped all the same.
\<close>

theorem buffer_cleared_on_unparseable_body:
  "map_option (g_result_count \<circ> fst) (cycle example_config cycle_200_html one_queued) = Some 0
   \<and> g_result_count one_queued = 1
   \<and> inbound (net cycle_200_html) = ''HTTP/1.1 200 OK'' @ CRLF @ CRLF @ ''<html>''
   \<and> strstr (inbound (net cycle_200_html)) ''{'' = None"
  by (simp add: cycle_one_queued_200)
     (simp add: one_queued_def cycle_200_html_def answers_200_html_def CRLF_def)

section \<open>The capacity of the result buffer\<close>

lemma process_commands_append:
  "process_commands (xs @ ys) st = process_commands xs st \<bind> process_commands ys"
proof (induction xs st rule: process_commands.induct)
  case (1 st)
  show ?case by simp
next
  case (2 cmd env rest st)
  show ?case
  proof (cases "g_result_count st < 64")
    case True
    show ?thesis
    proof (cases "execute_command env cmd (g_running st)")
      case None
      with True show ?thesis by simp
    next
      case (Some a)
      obtain result running where a: "a = (result, running)" by (cases a)
      from "2.IH"(1)[OF True Some a[symmetric]] True Some a show ?thesis by simp
    qed
  next
    case False
    from "2.IH"(2)[OF False] False show ?thesis by simp
  qed
qed

lemma execute_pwd: "\<exists>result. execute_command quiet_env pwd_command running = Some (result, running)"
  by (simp add: execute_command_def quiet_env_def pwd_command_def get_current_timestamp_def
        getcwd_def MAX_OUTPUT_SIZE_def)


lemma execute_exit_quiet: "map_option snd (execute_command quiet_env exit_command True) = Some False"
  by (simp add: execute_command_def quiet_env_def exit_command_def get_current_timestamp_def)

lemma process_pwds:
  "\<exists>st'. process_commands (replicate n (pwd_command, quiet_env)) st = Some st' \<and>
         g_running st' = g_running st"
proof (induction n arbitrary: st)
  case 0
  show ?case by simp
next
  case (Suc n)
  show ?case
  proof (cases "g_result_count st < 64")
    case True
    from execute_pwd[of "g_running st"] obtain result where
      ex: "execute_command quiet_env pwd_command (g_running st) = Some (result, g_running st)"
      by blast
    from Suc.IH[of "st\<lparr>g_running := g_running st,
                        g_results := (g_results st)[g_result_count st := result],
                        g_result_count := g_result_count st + 1\<rparr>"]
    show ?thesis using True ex by simp
  next
    case False
    with Suc.IH[of st] show ?thesis by simp
  qed
qed

lemma process_sixty_five:
  "\<exists>st'. process_commands sixty_five started = Some st' \<and> g_running st' \<and>
         g_result_count st' = 64"
proof -
  from process_pwds[of 64 started] obtain st1 where
    p: "process_commands (replicate 64 (pwd_command, quiet_env)) started = Some st1" and
    r: "g_running st1 = g_running started"
    by blast
  from process_commands_count[OF p] have c: "g_result_count st1 = 64"
    by (simp add: started_def initial_state_def)
  from process_commands_full[OF c] have "process_commands [(exit_command, quiet_env)] st1 = Some st1" .
  with p have "process_commands sixty_five started = Some st1"
    by (simp add: sixty_five_def process_commands_append del: process_commands.simps)
  with r c show ?thesis by (simp add: started_def)
qed

text \<open>
  C2, as the code has it.  The count of queued results never exceeds 64: the loop over
  the received commands leaves \<open>min 64 (count + number of commands)\<close> results queued,
  and so does any number of iterations of the main loop.  With 64 results queued every
  further command is skipped: the state, \<^verbatim>\<open>g_running\<close> included, is as before, so the
  command is not executed and no result is computed; nothing fails.
\<close>

theorem result_buffer_bounded:
  "(g_result_count st \<le> 64 \<and> process_commands received st = Some st' \<longrightarrow>
      g_result_count st' = min 64 (g_result_count st + length received))
   \<and> (g_result_count st \<le> 64 \<and> beacon_main_loop config es st = Some (rc, st'', fx) \<longrightarrow>
      g_result_count st'' \<le> 64)
   \<and> (g_result_count st = 64 \<longrightarrow> process_commands received st = Some st)"
  using process_commands_count[of received st st']
    beacon_main_loop_count[of config es st rc st'' fx]
    process_commands_full[of st received]
  by blast

text \<open>
  C2, witness: sixty-five commands received by a freshly started engine leave 64
  results, a further command then changes nothing, and an iteration of the main loop
  from a state with one queued result ends with at most 64.
\<close>

theorem result_buffer_bounded_witness:
  "\<exists>st'. process_commands sixty_five started = Some st' \<and> g_result_count st' = 64
      \<and> process_commands [(exit_command, quiet_env)] st' = Some st'
      \<and> (\<exists>rc st'' fx. beacon_main_loop example_config [cycle_refused] one_queued =
                          Some (rc, st'', fx) \<and> g_result_count st'' \<le> 64)"
proof -
  from process_sixty_five obtain st1 where
    p: "process_commands sixty_five started = Some st1" by blast
  have s0: "g_result_count started \<le> 64" by (simp add: started_def initial_state_def)
  have l: "beacon_main_loop example_config [cycle_refused] one_queued =
             Some (None, one_queued,
               [Sleep 61, Checkin
                 \<lparr>req_method = ''POST'',
                  req_body = Some (results_open_text example_config @
                                   result_text 0 one_result @ '']}''),
                  on_wire = None\<rparr>])"
    by (simp add: cycle_one_queued_refused) (simp add: one_queued_def)
  have q: "g_result_count one_queued \<le> 64" by (simp add: one_queued_def)
  from result_buffer_bounded[of started sixty_five st1] s0 p
  have c: "g_result_count st1 = 64"
    by (simp add: started_def initial_state_def sixty_five_def)
  from result_buffer_bounded[of st1 "[(exit_command, quiet_env)]"] c
  have f: "process_commands [(exit_command, quiet_env)] st1 = Some st1"
    by (simp del: process_commands.simps)
  from result_buffer_bounded[of one_queued _ _ example_config "[cycle_refused]"] q l
  have "g_result_count one_queued \<le> 64" by blast
  with p c f l show ?thesis by (simp del: process_commands.simps beacon_main_loop.simps)
qed

text \<open>
  C2, counterexample: sixty-five commands arrive in one cycle and the last is the
  termination verb.  Computing its result would clear \<^verbatim>\<open>g_running\<close>; after the
  code's loop 64 results are queued and \<^verbatim>\<open>g_running\<close> is still set, so that result
  was never computed.
\<close>

theorem sixty_fifth_command_not_executed:
  "map_option g_running (after_checkin 0 sixty_five started) = Some True
   \<and> map_option g_result_count (after_checkin 0 sixty_five started) = Some 64
   \<and> map_option snd (execute_command quiet_env exit_command True) = Some False"
proof -
  from process_sixty_five obtain st1 where
    "process_commands sixty_five started = Some st1" "g_running st1" "g_result_count st1 = 64"
    by blast
  moreover have "started\<lparr>g_result_count := 0\<rparr> = started"
    by (simp add: started_def initial_state_def)
  ultimately show ?thesis
    by (simp add: after_checkin_def execute_exit_quiet)
qed

section \<open>Exit status of the process\<close>







text \<open>
  The parser hands the loop no command, so an iteration never clears \<^verbatim>\<open>g_running\<close>:
  once the loop is entered with the flag set, no number of iterations ends it.
\<close>

lemma cycle_keeps_running:
  assumes "cycle config e st = Some (st', fx)"
  shows "g_running st' = g_running st"
proof -
  from assms obtain rc commands command_count x cs where
    ck: "checkin (net e) config None (Some (g_results st)) (g_result_count st) =
           Some (rc, commands, command_count, x)" and
    cs: "(if rc = 0 then commands_array commands command_count else Some []) = Some cs" and
    ac: "after_checkin rc (zip cs (map (host e) [0..<length cs])) st = Some st'"
    by (auto simp: cycle_def split: bind_splits)
  from checkin_transport[OF ck] obtain m b r where
    "finish_checkin m b r = (rc, commands, command_count, x)"
    by auto
  from finish_checkin_commands[OF this] have "commands = None" "command_count = 0" by simp_all
  with cs have "cs = []" by (auto simp: commands_array_def split: if_splits)
  with ac show ?thesis by (auto simp: after_checkin_def split: if_splits)
qed

lemma beacon_main_loop_still_running:
  "g_running st \<Longrightarrow> beacon_main_loop config es st = Some (result, st', fx) \<Longrightarrow> result = None"
proof (induction es arbitrary: st fx)
  case Nil
  then show ?case by simp
next
  case (Cons e es)
  from Cons.prems obtain st1 fx1 fx2 where
    c: "cycle config e st = Some (st1, fx1)" and
    l: "beacon_main_loop config es st1 = Some (result, st', fx2)"
    by (auto split: bind_splits)
  from cycle_keeps_running[OF c] Cons.prems(1) have "g_running st1" by simp
  from Cons.IH[OF this l] show ?case .
qed


lemma first_checkin_body_short:
  "length (first_checkin_text example_config example_host) < 1000"
  by (simp add: first_checkin_text_def example_config_def default_config_def example_host_def
        placeholder_timestamp_def printf_d_def)


















section \<open>What a regular check-in sends\<close>

lemma https_checkin_ignores_results:
  "https_checkin net_answers config None results result_count =
     https_checkin net_answers config None None 0"
  by (simp add: https_checkin_def)

lemma sleep_https: "sleep_with_jitter (sleep_interval https_config)
    (jitter_percent https_config) 7 = Some 61"
  by (simp add: https_config_def default_config_def sleep_with_jitter_def c_int_def
        INT_MIN_def INT_MAX_def c_div_def c_mod_def to_unsigned_def UINT_MAX_def)

lemma https_request_example:
  "https_request answers_200_html ''GET'' ''https://c2.example/api''
     (checkin_headers https_config) None (verify_ssl https_config) =
   Some (0, \<lparr>status_code = 200, data = Some (inbound answers_200_html)\<rparr>,
         Some (''c2.example'', 443,
               request_head ''GET'' ''/api'' ''c2.example'' (checkin_headers https_config)))"
proof -
  have "http_request answers_200_html ''GET'' ''https://c2.example/api''
          (checkin_headers https_config) None =
        Some (0, \<lparr>status_code = 200, data = Some (inbound answers_200_html)\<rparr>,
              Some (''c2.example'', 443,
                    request_head ''GET'' ''/api'' ''c2.example'' (checkin_headers https_config) @
                    (case None of None \<Rightarrow> [] | Some d \<Rightarrow> d)))"
  proof (rule http_request_answer[OF parse_url_https_example _ _ _ _ _ status_200_html])
    show "length (request_head ''GET'' ''/api'' ''c2.example'' (checkin_headers https_config)) +
          length (case None of None \<Rightarrow> [] | Some d \<Rightarrow> d) < MAX_BUFFER_SIZE"
      using request_head_short[of "''GET''"]
      by (simp add: MAX_BUFFER_SIZE_def checkin_headers_https)
  qed (simp_all add: answers_200_html_def)
  then show ?thesis by (simp add: https_request_def)
qed

lemma https_checkin_one_queued:
  "checkin answers_200_html https_config None (Some (g_results one_queued)) 1 =
     Some (0, None, 0,
       \<lparr>req_method = ''GET'', req_body = None,
        on_wire = Some (''c2.example'', 443,
          request_head ''GET'' ''/api'' ''c2.example'' (checkin_headers https_config))\<rparr>)"
proof -
  have url: "server_url https_config = ''https://c2.example/api''"
    by (simp add: https_config_def)
  show ?thesis
    using https_request_example
    by (simp add: checkin_def https_checkin_def url finish_checkin_200 Let_def)
qed

text \<open>
  C4, at the failing input: an HTTPS controller, one result queued.  The request of the
  cycle is a \<^verbatim>\<open>GET\<close> without a body, and the queued result is dropped when the
  controller answers 200.
\<close>

theorem https_checkin_sends_no_results:
  "cycle https_config cycle_200_html one_queued =
     Some (one_queued\<lparr>g_result_count := 0\<rparr>,
       [Sleep 61, Checkin
         \<lparr>req_method = ''GET'', req_body = None,
          on_wire = Some (''c2.example'', 443,
            request_head ''GET'' ''/api'' ''c2.example'' (checkin_headers https_config))\<rparr>])
   \<and> queued one_queued = [one_result]"
  using cycle_result[of https_config cycle_200_html 61 one_queued 0]
    sleep_https https_checkin_one_queued
  by (simp add: cycle_200_html_def one_queued_def queued_def)

section \<open>The HTTPS transport\<close>

lemma https_request_is_http_request:
  "https_request net_answers method url headers body verify =
     http_request net_answers method url headers body"
  by (simp add: https_request_def)

text \<open>
  C5, at the failing input: an \<^verbatim>\<open>https://\<close> URL with the verify flag set.  The
  transport connects to port 443 and hands the request text itself to \<^verbatim>\<open>send\<close> on the
  bare socket; it returns 0, and it is the very call of \<^verbatim>\<open>http_request\<close>.
\<close>

theorem https_request_sends_plaintext:
  "https_request answers_200_html ''GET'' ''https://c2.example/api''
     (checkin_headers https_config) None 1 =
   Some (0, \<lparr>status_code = 200, data = Some (inbound answers_200_html)\<rparr>,
         Some (''c2.example'', 443,
               ''GET /api HTTP/1.1'' @ CRLF @
               ''Host: c2.example'' @ CRLF @
               ''User-Agent: '' @ USER_AGENT @ CRLF @
               ''Content-Type: application/json'' @ CRLF @
               ''X-Beacon-ID: b1'' @ CRLF @
               ''Connection: close'' @ CRLF @ CRLF))
   \<and> https_request answers_200_html ''GET'' ''https://c2.example/api''
        (checkin_headers https_config) None 1 =
      http_request answers_200_html ''GET'' ''https://c2.example/api''
        (checkin_headers https_config) None"
proof -
  have v: "verify_ssl https_config = 1" by (simp add: https_config_def default_config_def)
  have "request_head ''GET'' ''/api'' ''c2.example'' (checkin_headers https_config) =
          ''GET /api HTTP/1.1'' @ CRLF @
          ''Host: c2.example'' @ CRLF @
          ''User-Agent: '' @ USER_AGENT @ CRLF @
          ''Content-Type: application/json'' @ CRLF @
          ''X-Beacon-ID: b1'' @ CRLF @
          ''Connection: close'' @ CRLF @ CRLF"
    by (simp add: request_head_def checkin_headers_https checkin_headers_example)
  with https_request_example v show ?thesis
    by (simp add: https_request_def)
qed

section \<open>Decoding the response\<close>

text \<open>
  C7, as the code has it.  For every response body the decoder returns the count 0 and
  no array, whether the \<open>commands\<close> field is there or not; it has no error result, and
  a check-in with status 200 reports success whatever the body is.
\<close>

theorem parse_commands_json_always_empty:
  "parse_commands_json json = (0, None)
   \<and> finish_checkin method body (0, \<lparr>status_code = 200, data = Some d\<rparr>, w) =
       (0, None, 0, \<lparr>req_method = method, req_body = body, on_wire = w\<rparr>)"
  by (simp add: finish_checkin_200) (simp add: parse_commands_json_def split: option.splits)

text \<open>
  C7, counterexample: a body that is no structured document decodes exactly as the
  empty document does, and the check-in that received it returns 0, not an error.
\<close>

theorem unparseable_body_is_no_error:
  "parse_commands_json ''<html>'' = parse_commands_json ''{}''
   \<and> fst (finish_checkin ''GET'' None
            (0, \<lparr>status_code = 200, data = Some ''<html>''\<rparr>, None)) = 0"
  by (simp add: finish_checkin_200) (simp add: parse_commands_json_def split: option.splits)

section \<open>String fields in the payload\<close>

lemma http_checkin_json_first:
  "length (first_checkin_text config si) < MAX_BUFFER_SIZE \<Longrightarrow>
   http_checkin_json config (Some si) results n = Some (first_checkin_text config si)"
  by (simp add: http_checkin_json_def snprintf_def)

lemma https_checkin_json_first:
  "length (first_checkin_text config si) < MAX_BUFFER_SIZE \<Longrightarrow>
   https_checkin_json config (Some si) = first_checkin_text config si"
  by (simp add: https_checkin_json_def snprintf_def)

text \<open>
  C6, as the code has it.  Every string field is copied into the format text as it
  is, between the double quotes of the format; no character of a field is escaped or
  replaced.  A first check-in whose text \<open>first_checkin_text\<close> is shorter than the
  buffer of \<open>MAX_BUFFER_SIZE = 8192\<close> bytes is that text, on both transports.  A
  check-in with results whose opening text and elements \<open>result_text\<close> are together at
  most \<open>MAX_BUFFER_SIZE - 256 = 7936\<close> characters long, the bound of the guard of the
  loop, is the opening text, every element and the closing \<open>]}\<close>.  Nothing is stated
  of longer payloads, where the loop may stop before the last element or cut one.
\<close>

theorem checkin_payload_verbatim:
  "(length (first_checkin_text config si) < MAX_BUFFER_SIZE \<longrightarrow>
      http_checkin_json config (Some si) results k = Some (first_checkin_text config si) \<and>
      https_checkin_json config (Some si) = first_checkin_text config si)
   \<and> (0 < n \<and> n \<le> length arr \<and>
      length (results_open_text config) + length (results_texts 0 (take n arr))
        \<le> MAX_BUFFER_SIZE - 256 \<longrightarrow>
      http_checkin_json config None (Some arr) n =
        Some (results_open_text config @ results_texts 0 (take n arr) @ '']}''))"
  using http_checkin_json_first[of config si results k] https_checkin_json_first[of config si]
    http_checkin_json_results[of n arr config]
  by blast

text \<open>
  C6, witness: the first check-in of the example host, and the check-in that carries
  the one queued result.
\<close>

theorem checkin_payload_verbatim_witness:
  "http_checkin_json example_config (Some example_host) None 0 =
     Some (first_checkin_text example_config example_host)
   \<and> https_checkin_json example_config (Some example_host) =
       first_checkin_text example_config example_host
   \<and> http_checkin_json example_config None (Some (g_results one_queued)) 1 =
       Some (results_open_text example_config @ result_text 0 one_result @ '']}'')"
proof -
  have a: "length (first_checkin_text example_config example_host) < MAX_BUFFER_SIZE"
    using first_checkin_body_short by (simp add: MAX_BUFFER_SIZE_def)
  have t: "take 1 (g_results one_queued) = [one_result]" by (simp add: one_queued_def)
  have b: "0 < (1::nat) \<and> 1 \<le> length (g_results one_queued) \<and>
      length (results_open_text example_config) +
      length (results_texts 0 (take 1 (g_results one_queued))) \<le> MAX_BUFFER_SIZE - 256"
    using one_queued_body_short unfolding t
    by (simp add: MAX_BUFFER_SIZE_def one_queued_def)
  from checkin_payload_verbatim[of example_config example_host None 0 1 "g_results one_queued"] a b
  show ?thesis unfolding t by simp
qed

text \<open>
  C6, counterexample: one result whose output holds double quotes is encoded to the
  very payload of two other results, so the output has closed its own string and
  opened a second element of the array.
\<close>

theorem unescaped_output_forges_a_result:
  "http_checkin_json example_config None (Some [forged_result]) 1 =
     http_checkin_json example_config None (Some [plain_result_1, plain_result_2]) 2
   \<and> [forged_result] \<noteq> [plain_result_1, plain_result_2]"
proof -
  have eq: "results_texts 0 [forged_result] = results_texts 0 [plain_result_1, plain_result_2]"
    by (simp add: result_text_def forged_result_def plain_result_1_def plain_result_2_def)
  have len: "length (results_open_text example_config) +
             length (results_texts 0 [plain_result_1, plain_result_2]) \<le> MAX_BUFFER_SIZE - 256"
    by (simp add: results_open_text_def result_text_def plain_result_1_def plain_result_2_def
          example_config_def default_config_def placeholder_timestamp_def MAX_BUFFER_SIZE_def)
  have "http_checkin_json example_config None (Some [forged_result]) 1 =
          Some (results_open_text example_config @
                results_texts 0 (take 1 [forged_result]) @ '']}'')"
    using len by (intro http_checkin_json_results) (simp_all add: eq del: results_texts.simps)
  moreover have "http_checkin_json example_config None (Some [plain_result_1, plain_result_2]) 2 =
          Some (results_open_text example_config @
                results_texts 0 (take 2 [plain_result_1, plain_result_2]) @ '']}'')"
    using len by (intro http_checkin_json_results) (simp_all del: results_texts.simps)
  ultimately show ?thesis
    using eq by (simp del: results_texts.simps)
qed

section \<open>The top-level timestamp\<close>

lemma prefix_take: "prefix h xs \<Longrightarrow> length h \<le> n \<Longrightarrow> prefix h (take n xs)"
  by (auto simp: prefix_def)

lemma snprintf_at_prefix:
  "snprintf_at cap buf offset text = Some (buf', n) \<Longrightarrow> prefix h buf \<Longrightarrow> length h \<le> offset \<Longrightarrow>
   prefix h buf'"
  by (auto simp: snprintf_at_def prefix_take split: if_splits)

lemma results_loop_prefix:
  "results_loop rs i json offset = Some (json', offset') \<Longrightarrow> prefix h json \<Longrightarrow>
   length h \<le> offset \<Longrightarrow> prefix h json' \<and> length h \<le> offset'"
proof (induction rs arbitrary: i json offset)
  case Nil
  then show ?case by simp
next
  case (Cons r rs)
  show ?case
  proof (cases "offset < MAX_BUFFER_SIZE - 256")
    case True
    with Cons.prems(1) obtain json1 n where
      s: "snprintf_at MAX_BUFFER_SIZE json offset (result_text i r) = Some (json1, n)" and
      l: "results_loop rs (Suc i) json1 (offset + n) = Some (json', offset')"
      by (auto split: bind_splits)
    from snprintf_at_prefix[OF s Cons.prems(2,3)] have "prefix h json1" .
    moreover from Cons.prems(3) have "length h \<le> offset + n" by simp
    ultimately show ?thesis using l by (rule Cons.IH[rotated -1, rotated -1, OF _ _ _])
  next
    case False
    with Cons.prems show ?thesis by simp
  qed
qed

lemma payload_head_length: "length (payload_head config) = length (beacon_id config) + 50"
  by (simp add: payload_head_def)

lemma payload_head_first: "prefix (payload_head config) (first_checkin_text config si)"
  by (simp add: payload_head_def first_checkin_text_def placeholder_timestamp_def)

lemma payload_head_regular: "prefix (payload_head config) (regular_checkin_text config)"
  by (simp add: payload_head_def regular_checkin_text_def placeholder_timestamp_def)

lemma payload_head_results: "prefix (payload_head config) (results_open_text config)"
  by (simp add: payload_head_def results_open_text_def placeholder_timestamp_def)

lemma execute_command_clock:
  "execute_command env cmd running = Some (result, running') \<Longrightarrow>
   get_current_timestamp env 32 = Some (timestamp result)"
  by (auto simp: execute_command_def Let_def split: bind_splits if_splits option.splits)

lemma execute_command_timestamp:
  "execute_command env cmd running = Some (result, running') \<Longrightarrow> timestamp result = now env"
  by (auto simp: execute_command_def get_current_timestamp_def Let_def
           split: bind_splits if_splits option.splits)

lemma http_checkin_json_head:
  assumes id: "length (beacon_id config) < BEACON_ID_LEN"
    and j: "http_checkin_json config sysinfo results n = Some json"
  shows "prefix (payload_head config) json"
proof -
  have len: "length (payload_head config) \<le> MAX_BUFFER_SIZE - 1"
    using id by (simp add: payload_head_length BEACON_ID_LEN_def MAX_BUFFER_SIZE_def)
  show ?thesis
  proof (cases sysinfo)
    case (Some si)
    with j have "json = take (MAX_BUFFER_SIZE - 1) (first_checkin_text config si)"
      by (simp add: http_checkin_json_def snprintf_def)
    with len show ?thesis by (simp add: prefix_take payload_head_first)
  next
    case None
    show ?thesis
    proof (cases "has_results results n")
      case False
      with j None have "json = take (MAX_BUFFER_SIZE - 1) (regular_checkin_text config)"
        by (simp add: http_checkin_json_def snprintf_def)
      with len show ?thesis by (simp add: prefix_take payload_head_regular)
    next
      case True
      with j None obtain rs json1 offset1 k where
        l: "results_loop (take n rs) 0 (take (MAX_BUFFER_SIZE - 1) (results_open_text config))
              (length (results_open_text config)) = Some (json1, offset1)" and
        c: "snprintf_at MAX_BUFFER_SIZE json1 offset1 '']}'' = Some (json, k)"
        by (auto simp: http_checkin_json_def snprintf_def
                 split: option.splits if_splits bind_splits)
      have p0: "prefix (payload_head config) (take (MAX_BUFFER_SIZE - 1) (results_open_text config))"
        using len by (simp add: prefix_take payload_head_results)
      have l0: "length (payload_head config) \<le> length (results_open_text config)"
        using payload_head_results[of config] by (rule prefix_length_le)
      from results_loop_prefix[OF l p0 l0]
      have "prefix (payload_head config) json1" "length (payload_head config) \<le> offset1"
        by simp_all
      with c show ?thesis by (rule snprintf_at_prefix)
    qed
  qed
qed

lemma https_checkin_json_head:
  assumes id: "length (beacon_id config) < BEACON_ID_LEN"
  shows "prefix (payload_head config) (https_checkin_json config sysinfo)"
proof -
  have len: "length (payload_head config) \<le> MAX_BUFFER_SIZE - 1"
    using id by (simp add: payload_head_length BEACON_ID_LEN_def MAX_BUFFER_SIZE_def)
  then show ?thesis
    by (cases sysinfo)
       (simp_all add: https_checkin_json_def snprintf_def prefix_take payload_head_first
          payload_head_regular)
qed

lemma result_text_timestamp: "\<exists>pre post. result_text i r = pre @ timestamp r @ post"
  unfolding result_text_def by (metis append.assoc)

text \<open>
  C10, as the code has it.  For a beacon identifier that fits its array, every payload
  either check-in function builds (first, regular or with results) begins with the
  identifier and the timestamp \<open>2024-01-01T00:00:00Z\<close>; the functions read no clock.
  The timestamp of a command result is the time \<^verbatim>\<open>get_current_timestamp\<close> read on
  entry to \<^verbatim>\<open>execute_command\<close>, before the command is dispatched, and the element of
  the results array carries it.
\<close>

theorem top_level_timestamp_is_placeholder:
  \<open>length (beacon_id config) < BEACON_ID_LEN \<longrightarrow>
     (http_checkin_json config sysinfo results n = Some json \<longrightarrow>
        prefix (''{"beacon_id":"'' @ beacon_id config @ ''","timestamp":"2024-01-01T00:00:00Z"'')
          json)
     \<and> prefix (''{"beacon_id":"'' @ beacon_id config @ ''","timestamp":"2024-01-01T00:00:00Z"'')
          (https_checkin_json config sysinfo)
     \<and> (execute_command env cmd running = Some (result, running') \<longrightarrow>
          timestamp result = now env \<and>
          get_current_timestamp env 32 = Some (timestamp result) \<and>
          (\<exists>pre post. result_text i result = pre @ now env @ post))\<close>
  using http_checkin_json_head[of config sysinfo results n json]
    https_checkin_json_head[of config sysinfo]
    execute_command_timestamp[of env cmd running result running']
    execute_command_clock[of env cmd running result running']
    result_text_timestamp[of i result]
  unfolding payload_head_def
  by metis

text \<open>
  C10, witness: the payload with the one queued result, the HTTPS payload of a regular
  check-in, and the result of a command entered at \<open>2026-01-01T00:00:00Z\<close>.
\<close>

theorem top_level_timestamp_is_placeholder_witness:
  \<open>prefix (''{"beacon_id":"'' @ beacon_id example_config @
            ''","timestamp":"2024-01-01T00:00:00Z"'')
      (results_open_text example_config @ result_text 0 one_result @ '']}'')
   \<and> prefix (''{"beacon_id":"'' @ beacon_id example_config @
              ''","timestamp":"2024-01-01T00:00:00Z"'')
        (https_checkin_json example_config None)
   \<and> (\<exists>result. execute_command quiet_env pwd_command True = Some (result, True) \<and>
        timestamp result = ''2026-01-01T00:00:00Z'')\<close>
proof -
  have id: "length (beacon_id example_config) < BEACON_ID_LEN"
    by (simp add: example_config_def BEACON_ID_LEN_def)
  from execute_pwd[of True] obtain result where
    e: "execute_command quiet_env pwd_command True = Some (result, True)" by blast
  have n: "now quiet_env = ''2026-01-01T00:00:00Z''" by (simp add: quiet_env_def)
  from top_level_timestamp_is_placeholder[of example_config None "Some (g_results one_queued)"
      "Suc 0" "results_open_text example_config @ result_text 0 one_result @ '']}''"
      quiet_env pwd_command True result True 0] id json_one_queued e n
  show ?thesis by auto
qed

text \<open>
  C10, counterexample: a shell command entered at \<open>00:00:00\<close> that has finished at
  \<open>00:00:05\<close>.  Its result is stamped \<open>00:00:00\<close>, the time of entry, not the time of
  completion.
\<close>

theorem result_timestamp_is_entry_time:
  "map_option (timestamp \<circ> fst) (execute_command (answers slow_run) shell_command True) =
     Some ''2026-01-01T00:00:00Z''
   \<and> completed_at slow_run = ''2026-01-01T00:00:05Z''"
proof -
  have "read_pipe MAX_OUTPUT_SIZE [] [] 0 = Some []"
    by (subst read_pipe.simps) (simp add: fgets_def)
  then have "\<exists>res. execute_command (answers slow_run) shell_command True = Some (res, True)"
    by (simp add: execute_command_def slow_run_def shell_command_def get_current_timestamp_def
          execute_shell_command_def del: read_pipe.simps)
  then obtain res where
    e: "execute_command (answers slow_run) shell_command True = Some (res, True)" by blast
  from execute_command_timestamp[OF e] have "timestamp res = ''2026-01-01T00:00:00Z''"
    by (simp add: slow_run_def)
  with e show ?thesis by (simp add: slow_run_def)
qed


end
